theory Spec2Isabelle
  imports Main "HOL-Library.Word"
begin

section \<open>Memory, allocation strategy and element operations\<close>

text \<open>
  The container \<open>expu::darray\<close> (include/expu/containers/darray.hpp) keeps three raw
  pointers into one block obtained from its allocator. A pointer is modelled as null or
  as a block identifier with an offset; a block is a list of slots, a slot holding a
  constructed element (\<open>Some v\<close>) or raw storage (\<open>None\<close>).
\<close>

datatype ptr = Null | Ptr nat nat

fun ptr_add :: "ptr \<Rightarrow> nat \<Rightarrow> ptr" where
  "ptr_add Null n = Null"
| "ptr_add (Ptr b i) n = Ptr b (i + n)"

fun ptr_sub :: "ptr \<Rightarrow> nat \<Rightarrow> ptr" where
  "ptr_sub Null n = Null"
| "ptr_sub (Ptr b i) n = Ptr b (i - n)"

fun offset :: "ptr \<Rightarrow> nat" where
  "offset Null = 0"
| "offset (Ptr b i) = i"

text \<open>The difference \<open>p - q\<close> of two pointers into the same block, for \<open>q \<le> p\<close>.\<close>

definition ptr_diff :: "ptr \<Rightarrow> ptr \<Rightarrow> nat" where
  "ptr_diff p q = offset p - offset q"

fun ptr_le :: "ptr \<Rightarrow> ptr \<Rightarrow> bool" where
  "ptr_le Null Null = True"
| "ptr_le (Ptr b i) (Ptr c j) = (b = c \<and> i \<le> j)"
| "ptr_le _ _ = False"

text \<open>
  Outcomes. \<open>CapacityOverflow\<close> is \<open>std::bad_array_new_length\<close>, \<open>OutOfRange\<close> is
  \<open>std::out_of_range\<close>, \<open>ConstructionFailure\<close> is an exception leaving an element's
  constructor or assignment operator. These three are C++ exceptions: \<open>catch (...)\<close>
  handles them. A \<open>Fault\<close> is a violated precondition (a failed \<open>EXPU_VERIFY_DEBUG\<close>, a read
  of a slot that holds no element, an address outside every block, a destructor call on a
  slot that holds no element, an exception leaving a \<open>noexcept\<close> function); no handler
  sees it and the model stops there.
\<close>

datatype fault = UninitialisedRead | BadAddress | DebugVerify | Terminate | DoubleDestroy

datatype error = CapacityOverflow | OutOfRange | ConstructionFailure | Fault fault

fun is_exception :: "error \<Rightarrow> bool" where
  "is_exception (Fault f) = False"
| "is_exception _ = True"

text \<open>
  The world outside the container: the blocks handed out by allocators, the next unused
  block identifier, the failure schedule of the element type (each element operation
  that may throw consumes one entry, \<open>True\<close> meaning that it throws; an exhausted schedule
  never throws), and the number of destructor calls made on a slot that holds no element.
\<close>

record 'a world =
  heap :: "nat \<Rightarrow> 'a option list option"
  fresh :: nat
  throws :: "bool list"
  bad_destroys :: nat

definition tick :: "bool \<Rightarrow> 'a world \<Rightarrow> bool \<times> 'a world" where
  "tick may_throw w =
     (if may_throw
      then (case throws w of [] \<Rightarrow> (False, w) | t # ts \<Rightarrow> (t, w\<lparr>throws := ts\<rparr>))
      else (False, w))"

fun load :: "'a world \<Rightarrow> ptr \<Rightarrow> error + 'a" where
  "load w Null = Inl (Fault BadAddress)"
| "load w (Ptr b i) =
     (case heap w b of
        None \<Rightarrow> Inl (Fault BadAddress)
      | Some cs \<Rightarrow>
          if i < length cs
          then (case cs ! i of None \<Rightarrow> Inl (Fault UninitialisedRead) | Some v \<Rightarrow> Inr v)
          else Inl (Fault BadAddress))"

text \<open>The slots of \<open>n\<close> consecutive addresses from \<open>p\<close> on; an address outside the block
  reads as a slot without element.\<close>

fun slot :: "'a world \<Rightarrow> ptr \<Rightarrow> 'a option" where
  "slot w Null = None"
| "slot w (Ptr b i) =
     (case heap w b of None \<Rightarrow> None | Some cs \<Rightarrow> if i < length cs then cs ! i else None)"

definition slots :: "'a world \<Rightarrow> ptr \<Rightarrow> nat \<Rightarrow> 'a option list" where
  "slots w p n = map (\<lambda>k. slot w (ptr_add p k)) [0..<n]"

text \<open>\<open>std::allocator_traits::construct\<close>: placement construction of \<open>v\<close> at \<open>p\<close>.\<close>

fun construct :: "bool \<Rightarrow> 'a world \<Rightarrow> ptr \<Rightarrow> 'a \<Rightarrow> (error + unit) \<times> 'a world" where
  "construct may_throw w Null v = (Inl (Fault BadAddress), w)"
| "construct may_throw w (Ptr b i) v =
     (case heap w b of
        None \<Rightarrow> (Inl (Fault BadAddress), w)
      | Some cs \<Rightarrow>
          if i < length cs
          then (case tick may_throw w of
                  (True, w1) \<Rightarrow> (Inl ConstructionFailure, w1)
                | (False, w1) \<Rightarrow> (Inr (), w1\<lparr>heap := (heap w1)(b \<mapsto> cs[i := Some v])\<rparr>))
          else (Inl (Fault BadAddress), w))"

text \<open>\<open>std::allocator_traits::destroy\<close>: the destructor call on the element at \<open>p\<close>.
  On a slot that holds no element (an element destroyed before, raw storage, no storage
  at all) the call is undefined in C++: it is a fault, and the world counts it.\<close>

fun destroy :: "'a world \<Rightarrow> ptr \<Rightarrow> (error + unit) \<times> 'a world" where
  "destroy w Null = (Inl (Fault DoubleDestroy), w\<lparr>bad_destroys := Suc (bad_destroys w)\<rparr>)"
| "destroy w (Ptr b i) =
     (case heap w b of
        None \<Rightarrow> (Inl (Fault DoubleDestroy), w\<lparr>bad_destroys := Suc (bad_destroys w)\<rparr>)
      | Some cs \<Rightarrow>
          if i < length cs \<and> cs ! i \<noteq> None
          then (Inr (), w\<lparr>heap := (heap w)(b \<mapsto> cs[i := None])\<rparr>)
          else (Inl (Fault DoubleDestroy), w\<lparr>bad_destroys := Suc (bad_destroys w)\<rparr>))"

text \<open>Assignment \<open>*p = v\<close> to a constructed element.\<close>

fun assign_at :: "bool \<Rightarrow> 'a world \<Rightarrow> ptr \<Rightarrow> 'a \<Rightarrow> (error + unit) \<times> 'a world" where
  "assign_at may_throw w Null v = (Inl (Fault BadAddress), w)"
| "assign_at may_throw w (Ptr b i) v =
     (case heap w b of
        None \<Rightarrow> (Inl (Fault BadAddress), w)
      | Some cs \<Rightarrow>
          if i < length cs
          then (case cs ! i of
                  None \<Rightarrow> (Inl (Fault UninitialisedRead), w)
                | Some u \<Rightarrow>
                   (case tick may_throw w of
                      (True, w1) \<Rightarrow> (Inl ConstructionFailure, w1)
                    | (False, w1) \<Rightarrow> (Inr (), w1\<lparr>heap := (heap w1)(b \<mapsto> cs[i := Some v])\<rparr>)))
          else (Inl (Fault BadAddress), w))"

text \<open>The allocation strategy: an identity for \<open>operator==\<close> and
  \<open>allocator_traits::max_size\<close>; \<open>size_type\<close> is a 64-bit unsigned integer.\<close>

record allocator =
  alloc_id :: nat
  max_size :: "64 word"

definition allocate :: "'a world \<Rightarrow> allocator \<Rightarrow> nat \<Rightarrow> (error + ptr) \<times> 'a world" where
  "allocate w a n =
     (if unat (max_size a) < n then (Inl CapacityOverflow, w)
      else (Inr (Ptr (fresh w) 0),
            w\<lparr>heap := (heap w)(fresh w \<mapsto> replicate n None), fresh := Suc (fresh w)\<rparr>))"

fun deallocate :: "'a world \<Rightarrow> ptr \<Rightarrow> nat \<Rightarrow> 'a world" where
  "deallocate w Null n = w"
| "deallocate w (Ptr b i) n = w\<lparr>heap := (heap w)(b := None)\<rparr>"

text \<open>The compile-time properties the code branches on with \<open>if constexpr\<close>.\<close>

record traits =
  propagate_on_container_copy_assignment :: bool
  propagate_on_container_move_assignment :: bool
  is_always_equal :: bool
  is_nothrow_move_constructible :: bool
  is_nothrow_copy_constructible :: bool
  is_nothrow_move_assignable :: bool

subsection \<open>Range primitives\<close>

text \<open>
  Modelled from the spec: the range primitives of expu/mem_utils.hpp (destroy-range,
  uninitialized-copy, uninitialized-move), which is not among the sources. They follow
  their standard-library namesakes: a failed uninitialized copy destroys what it has
  built in the output and passes the failure on. destroy-range returns nothing: it is
  given as the world it leaves, in which the destructor calls it made on slots without
  element are counted.
\<close>

fun destroy_n :: "'a world \<Rightarrow> ptr \<Rightarrow> nat \<Rightarrow> 'a world" where
  "destroy_n w p 0 = w"
| "destroy_n w p (Suc n) = destroy_n (snd (destroy w p)) (ptr_add p 1) n"

definition destroy_range :: "'a world \<Rightarrow> ptr \<Rightarrow> ptr \<Rightarrow> 'a world" where
  "destroy_range w p q = destroy_n w p (ptr_diff q p)"

text \<open>
  Construction of the source values into raw storage from \<open>out\<close> on; the result is the
  end of the output. The source is given by its slots: for a range of another block these
  are read with \<open>slots\<close> before the transfer, which writes to other addresses only.
  A source slot without element cannot be read. \<open>may_throw\<close> tells whether the element
  constructor used may throw (a copy may; a move may unless the type is nothrow move
  constructible).
\<close>

fun uninitialised_transfer ::
  "bool \<Rightarrow> 'a world \<Rightarrow> 'a option list \<Rightarrow> ptr \<Rightarrow> (error + ptr) \<times> 'a world"
where
  "uninitialised_transfer may_throw w [] out = (Inr out, w)"
| "uninitialised_transfer may_throw w (c # cs) out =
     (case c of
        None \<Rightarrow> (Inl (Fault UninitialisedRead), w)
      | Some v \<Rightarrow>
         (case construct may_throw w out v of
            (Inl e, w1) \<Rightarrow> (Inl e, w1)
          | (Inr u, w1) \<Rightarrow>
             (case uninitialised_transfer may_throw w1 cs (ptr_add out 1) of
                (Inl e, w2) \<Rightarrow> (Inl e, if is_exception e then destroy_n w2 out 1 else w2)
              | (Inr p, w2) \<Rightarrow> (Inr p, w2))))"

definition uninitialised_copy ::
  "'a world \<Rightarrow> 'a option list \<Rightarrow> ptr \<Rightarrow> (error + ptr) \<times> 'a world" where
  "uninitialised_copy w src out = uninitialised_transfer True w src out"

definition uninitialised_move ::
  "'a world \<Rightarrow> 'a option list \<Rightarrow> ptr \<Rightarrow> (error + ptr) \<times> 'a world" where
  "uninitialised_move w src out = uninitialised_transfer False w src out"

text \<open>
  Modelled from the spec: the assigning primitives of expu/mem_utils.hpp (copy, move,
  backward-shift-copy/move, copy-until-sentinel), after their standard-library namesakes.
  \<open>copy_from\<close> assigns the values of an outside source to the constructed elements from
  \<open>out\<close> on and returns the end of the output; \<open>copy_until_sentinel\<close> assigns to the
  \<open>n\<close> elements from \<open>out\<close> on and returns what is left of the source;
  \<open>move_within\<close> and \<open>backward_within\<close> assign \<open>n\<close> elements from \<open>p\<close> on to
  another place of the same block, front to back and back to front.
\<close>

fun copy_from ::
  "bool \<Rightarrow> 'a world \<Rightarrow> 'a option list \<Rightarrow> ptr \<Rightarrow> (error + ptr) \<times> 'a world"
where
  "copy_from may_throw w [] out = (Inr out, w)"
| "copy_from may_throw w (c # cs) out =
     (case c of
        None \<Rightarrow> (Inl (Fault UninitialisedRead), w)
      | Some v \<Rightarrow>
         (case assign_at may_throw w out v of
            (Inl e, w1) \<Rightarrow> (Inl e, w1)
          | (Inr u, w1) \<Rightarrow> copy_from may_throw w1 cs (ptr_add out 1)))"

fun copy_until_sentinel ::
  "bool \<Rightarrow> 'a world \<Rightarrow> 'a option list \<Rightarrow> ptr \<Rightarrow> nat \<Rightarrow> (error + 'a option list) \<times> 'a world"
where
  "copy_until_sentinel may_throw w src out 0 = (Inr src, w)"
| "copy_until_sentinel may_throw w [] out (Suc n) = (Inl (Fault BadAddress), w)"
| "copy_until_sentinel may_throw w (c # cs) out (Suc n) =
     (case c of
        None \<Rightarrow> (Inl (Fault UninitialisedRead), w)
      | Some v \<Rightarrow>
         (case assign_at may_throw w out v of
            (Inl e, w1) \<Rightarrow> (Inl e, w1)
          | (Inr u, w1) \<Rightarrow> copy_until_sentinel may_throw w1 cs (ptr_add out 1) n))"

fun move_within ::
  "bool \<Rightarrow> 'a world \<Rightarrow> ptr \<Rightarrow> nat \<Rightarrow> ptr \<Rightarrow> (error + ptr) \<times> 'a world"
where
  "move_within may_throw w p 0 out = (Inr out, w)"
| "move_within may_throw w p (Suc n) out =
     (case load w p of
        Inl e \<Rightarrow> (Inl e, w)
      | Inr v \<Rightarrow>
         (case assign_at may_throw w out v of
            (Inl e, w1) \<Rightarrow> (Inl e, w1)
          | (Inr u, w1) \<Rightarrow> move_within may_throw w1 (ptr_add p 1) n (ptr_add out 1)))"

fun backward_within ::
  "bool \<Rightarrow> 'a world \<Rightarrow> ptr \<Rightarrow> nat \<Rightarrow> ptr \<Rightarrow> (error + ptr) \<times> 'a world"
where
  "backward_within may_throw w p 0 d_last = (Inr d_last, w)"
| "backward_within may_throw w p (Suc n) d_last =
     (case load w (ptr_add p n) of
        Inl e \<Rightarrow> (Inl e, w)
      | Inr v \<Rightarrow>
         (case assign_at may_throw w (ptr_sub d_last 1) v of
            (Inl e, w1) \<Rightarrow> (Inl e, w1)
          | (Inr u, w1) \<Rightarrow> backward_within may_throw w1 p n (ptr_sub d_last 1)))"

text \<open>
  \<open>std::rotate (first, middle, last)\<close> belongs to the standard library, not to the
  repository; the standard fixes its result and that it exchanges elements, not the
  order of the exchanges. For pointers it is taken as the rotation by three reversals
  (reverse the two parts, then the whole; the Microsoft implementation for random-access
  iterators), \<open>std::reverse\<close> exchanging the elements from both ends inwards with
  \<open>std::swap\<close>: a move construction of a temporary and two move assignments. Each
  of the three may throw unless the element type is nothrow move constructible or
  assignable; a throw leaves the elements as they are at that moment, and the value held
  by the temporary is lost. Other implementations exchange in another order; a rotation
  of two elements is one exchange in all of them.
\<close>

definition swap_at :: "traits \<Rightarrow> 'a world \<Rightarrow> ptr \<Rightarrow> ptr \<Rightarrow> (error + unit) \<times> 'a world" where
  "swap_at T w p q =
     (case load w p of
        Inl e \<Rightarrow> (Inl e, w)
      | Inr a \<Rightarrow>
         (case tick (\<not> is_nothrow_move_constructible T) w of
            (True, w1) \<Rightarrow> (Inl ConstructionFailure, w1)
          | (False, w1) \<Rightarrow>
             (case load w1 q of
                Inl e \<Rightarrow> (Inl e, w1)
              | Inr b \<Rightarrow>
                 (case assign_at (\<not> is_nothrow_move_assignable T) w1 p b of
                    (Inl e, w2) \<Rightarrow> (Inl e, w2)
                  | (Inr u, w2) \<Rightarrow> assign_at (\<not> is_nothrow_move_assignable T) w2 q a))))"

fun reverse_range :: "traits \<Rightarrow> 'a world \<Rightarrow> ptr \<Rightarrow> nat \<Rightarrow> (error + unit) \<times> 'a world" where
  "reverse_range T w p 0 = (Inr (), w)"
| "reverse_range T w p (Suc 0) = (Inr (), w)"
| "reverse_range T w p (Suc (Suc n)) =
     (case swap_at T w p (ptr_add p (Suc n)) of
        (Inl e, w1) \<Rightarrow> (Inl e, w1)
      | (Inr u, w1) \<Rightarrow> reverse_range T w1 (ptr_add p 1) n)"

definition rotate_range ::
  "traits \<Rightarrow> 'a world \<Rightarrow> ptr \<Rightarrow> ptr \<Rightarrow> ptr \<Rightarrow> (error + unit) \<times> 'a world" where
  "rotate_range T w p middle q =
     (if p = middle \<or> middle = q then (Inr (), w)
      else (case reverse_range T w p (ptr_diff middle p) of
              (Inl e, w1) \<Rightarrow> (Inl e, w1)
            | (Inr u, w1) \<Rightarrow>
               (case reverse_range T w1 middle (ptr_diff q middle) of
                  (Inl e, w2) \<Rightarrow> (Inl e, w2)
                | (Inr u, w2) \<Rightarrow> reverse_range T w2 p (ptr_diff q p))))"

text \<open>
  Modelled from the spec: \<open>_ctg_duplicate\<close> of expu/containers/contiguous_container.hpp,
  which is not among the sources: allocate a block of exactly the capacity asked for and
  construct the whole range into it; a failure frees the block. The result is the start
  and the end of what was built.
\<close>

definition ctg_duplicate ::
  "bool \<Rightarrow> 'a world \<Rightarrow> allocator \<Rightarrow> 'a option list \<Rightarrow> nat \<Rightarrow> (error + ptr \<times> ptr) \<times> 'a world"
where
  "ctg_duplicate may_throw w a src cap =
     (case allocate w a cap of
        (Inl e, w1) \<Rightarrow> (Inl e, w1)
      | (Inr new_first, w1) \<Rightarrow>
         (case uninitialised_transfer may_throw w1 src new_first of
            (Inl e, w2) \<Rightarrow> (Inl e, if is_exception e then deallocate w2 new_first cap else w2)
          | (Inr new_last, w2) \<Rightarrow> (Inr (new_first, new_last), w2)))"

section \<open>The container\<close>

record darray_data =
  first_ptr :: ptr
  last_ptr :: ptr
  end_ptr :: ptr

record darray = darray_data +
  alloc :: allocator

definition steal ::
  "'y darray_data_scheme \<Rightarrow> 'z darray_data_scheme \<Rightarrow> 'y darray_data_scheme \<times> 'z darray_data_scheme"
where
  "steal this other =
     (this\<lparr>first_ptr := first_ptr other, last_ptr := last_ptr other, end_ptr := end_ptr other\<rparr>,
      other\<lparr>first_ptr := Null, last_ptr := Null, end_ptr := Null\<rparr>)"

definition size_of :: "'z darray_data_scheme \<Rightarrow> nat" where
  "size_of d = ptr_diff (last_ptr d) (first_ptr d)"

definition capacity :: "'z darray_data_scheme \<Rightarrow> nat" where
  "capacity d = ptr_diff (end_ptr d) (first_ptr d)"

definition empty :: "'z darray_data_scheme \<Rightarrow> bool" where
  "empty d = (last_ptr d = first_ptr d)"

text \<open>The live elements, read through the pointers.\<close>

definition elements :: "'a world \<Rightarrow> 'z darray_data_scheme \<Rightarrow> (error + 'a) list" where
  "elements w d = map (\<lambda>k. load w (ptr_add (first_ptr d) k)) [0..<size_of d]"

text \<open>The layout invariant of the data model.\<close>

definition layout :: "'z darray_data_scheme \<Rightarrow> bool" where
  "layout d =
     (ptr_le (first_ptr d) (last_ptr d) \<and> ptr_le (last_ptr d) (end_ptr d) \<and>
      (first_ptr d = Null \<longrightarrow> last_ptr d = Null \<and> end_ptr d = Null))"

text \<open>
  The representation invariant: the container's block starts at \<open>first\<close>, has
  \<open>capacity\<close> slots, the first \<open>size\<close> of them hold the elements \<open>xs\<close> and the others are
  raw storage.
\<close>

definition rep :: "'a world \<Rightarrow> 'z darray_data_scheme \<Rightarrow> 'a list \<Rightarrow> nat \<Rightarrow> bool" where
  "rep w d xs cap =
     (case first_ptr d of
        Null \<Rightarrow> last_ptr d = Null \<and> end_ptr d = Null \<and> xs = [] \<and> cap = 0
      | Ptr b i \<Rightarrow>
          i = 0 \<and> last_ptr d = Ptr b (length xs) \<and> end_ptr d = Ptr b cap \<and> length xs \<le> cap \<and>
          heap w b = Some (map Some xs @ replicate (cap - length xs) None))"

subsection \<open>Special members\<close>

text \<open>\<open>darray(darray&& other) noexcept\<close>: the new container and what is left of \<open>other\<close>.\<close>

definition move_construct :: "darray \<Rightarrow> darray \<times> darray" where
  "move_construct other =
     (\<lparr>first_ptr = first_ptr other, last_ptr = last_ptr other, end_ptr = end_ptr other,
       alloc = alloc other\<rparr>,
      other\<lparr>first_ptr := Null, last_ptr := Null, end_ptr := Null\<rparr>)"

definition clear_dealloc :: "'a world \<Rightarrow> darray \<Rightarrow> 'a world" where
  "clear_dealloc w d =
     (if first_ptr d \<noteq> Null
      then deallocate (destroy_range w (first_ptr d) (last_ptr d)) (first_ptr d) (capacity d)
      else w)"

definition replace :: "'a world \<Rightarrow> darray \<Rightarrow> ptr \<Rightarrow> ptr \<Rightarrow> nat \<Rightarrow> darray \<times> 'a world" where
  "replace w d new_first new_last new_capacity =
     (d\<lparr>first_ptr := new_first, last_ptr := new_last, end_ptr := ptr_add new_first new_capacity\<rparr>,
      clear_dealloc w d)"

subsection \<open>erase\<close>

definition erase :: "'a world \<Rightarrow> darray \<Rightarrow> ptr \<Rightarrow> ptr \<Rightarrow> darray \<times> 'a world" where
  "erase w d p q = (d\<lparr>last_ptr := p\<rparr>, destroy_range w p q)"

subsection \<open>Growth policy\<close>

definition size_w :: "darray \<Rightarrow> 64 word" where
  "size_w d = word_of_nat (size_of d)"

definition capacity_w :: "darray \<Rightarrow> 64 word" where
  "capacity_w d = word_of_nat (capacity d)"

definition calculate_growth :: "darray \<Rightarrow> 64 word \<Rightarrow> error + 64 word" where
  "calculate_growth d min_capacity =
     (if max_size (alloc d) < min_capacity then Inl CapacityOverflow
      else let half_size = drop_bit 1 (size_w d)
           in if max_size (alloc d) - half_size < size_w d
              then Inr (max_size (alloc d))
              else Inr (max min_capacity (size_w d + half_size)))"

text \<open>The growth policy in the words of the specification, on unbounded numbers.\<close>

definition nextCapacity_spec :: "nat \<Rightarrow> nat \<Rightarrow> nat \<Rightarrow> error + nat" where
  "nextCapacity_spec maximum sz minRequired =
     (if maximum < minRequired then Inl CapacityOverflow
      else if maximum < sz + sz div 2 then Inr maximum
      else Inr (max minRequired (sz + sz div 2)))"

subsection \<open>emplace\<close>

text \<open>
  A mutating member function returns its outcome, the container and the world as they
  are when it returns or when the exception leaves it.
\<close>

type_synonym ('r, 'a) result = "(error + 'r) \<times> darray \<times> 'a world"

definition u_emplace_back :: "bool \<Rightarrow> 'a world \<Rightarrow> darray \<Rightarrow> 'a \<Rightarrow> (unit, 'a) result" where
  "u_emplace_back may_throw w d v =
     (if last_ptr d = end_ptr d then (Inl (Fault DebugVerify), d, w)
      else (case construct may_throw w (last_ptr d) v of
              (Inl e, w1) \<Rightarrow> (Inl e, d, w1)
            | (Inr u, w1) \<Rightarrow> (Inr (), d\<lparr>last_ptr := ptr_add (last_ptr d) 1\<rparr>, w1)))"

definition upush_back :: "traits \<Rightarrow> bool \<Rightarrow> 'a world \<Rightarrow> darray \<Rightarrow> 'a \<Rightarrow> (unit, 'a) result" where
  "upush_back T moved w d v =
     u_emplace_back (if moved then \<not> is_nothrow_move_constructible T else True) w d v"

definition reversible_uninitialised_move ::
  "traits \<Rightarrow> 'a world \<Rightarrow> 'a option list \<Rightarrow> ptr \<Rightarrow> (error + ptr) \<times> 'a world" where
  "reversible_uninitialised_move T w src out =
     (if is_nothrow_move_constructible T then uninitialised_move w src out
      else uninitialised_copy w src out)"

text \<open>The branch of \<open>emplace\<close> with spare capacity and a position before the end.\<close>

definition emplace_shift ::
  "traits \<Rightarrow> bool \<Rightarrow> 'a world \<Rightarrow> darray \<Rightarrow> ptr \<Rightarrow> 'a \<Rightarrow> (ptr, 'a) result" where
  "emplace_shift T may_throw w d naked_at v =
     (let before_last = ptr_sub (last_ptr d) 1 in
      case load w before_last of
        Inl e \<Rightarrow> (Inl e, d, w)
      | Inr bl \<Rightarrow>
      (case u_emplace_back (\<not> is_nothrow_move_constructible T) w d bl of
        (Inl e, d1, w1) \<Rightarrow> (Inl e, d1, w1)
      | (Inr u, d1, w1) \<Rightarrow>
      (case backward_within (\<not> is_nothrow_move_assignable T) w1 naked_at
              (ptr_diff before_last naked_at) (ptr_add before_last 1) of
        (Inl e, w2) \<Rightarrow> (Inl e, d1, w2)
      | (Inr post_at, w2) \<Rightarrow>
      (case destroy w2 naked_at of
        (Inl f, w3) \<Rightarrow> (Inl f, d1, w3)
      | (Inr u, w3) \<Rightarrow>
      (case construct may_throw w3 naked_at v of
        (Inr u, w4) \<Rightarrow> (Inr naked_at, d1, w4)
      | (Inl e, w4) \<Rightarrow>
         if \<not> is_exception e then (Inl e, d1, w4)
         else
         (case load w4 post_at of
            Inl f \<Rightarrow> (Inl f, d1, w4)
          | Inr pv \<Rightarrow>
            (case construct (\<not> is_nothrow_move_constructible T) w4 naked_at pv of
               (Inl e2, w5) \<Rightarrow>
                 if is_exception e2
                 then (Inl e2, d1\<lparr>last_ptr := naked_at\<rparr>, destroy_range w5 post_at (last_ptr d1))
                 else (Inl e2, d1, w5)
             | (Inr u, w5) \<Rightarrow>
               (case move_within (\<not> is_nothrow_move_assignable T) w5 (ptr_add post_at 1)
                       (ptr_diff (last_ptr d1) (ptr_add post_at 1)) post_at of
                  (Inl e3, w6) \<Rightarrow> (Inl e3, d1, w6)
                | (Inr q, w6) \<Rightarrow>
                    (case destroy w6 (ptr_sub (last_ptr d1) 1) of
                       (Inl f, w7) \<Rightarrow> (Inl f, d1\<lparr>last_ptr := ptr_sub (last_ptr d1) 1\<rparr>, w7)
                     | (Inr u, w7) \<Rightarrow>
                         (Inl e, d1\<lparr>last_ptr := ptr_sub (last_ptr d1) 1\<rparr>, w7))))))))))"

text \<open>
  The migration of the old elements around the new one in the reallocating branch. On a
  failure the result carries the value the variable \<open>new_last\<close> has at that moment.
\<close>

definition emplace_migrate ::
  "traits \<Rightarrow> 'a world \<Rightarrow> darray \<Rightarrow> ptr \<Rightarrow> ptr \<Rightarrow> (error \<times> ptr + ptr) \<times> 'a world" where
  "emplace_migrate T w d naked_at new_first =
     (if naked_at = last_ptr d
      then (case reversible_uninitialised_move T w (slots w (first_ptr d) (size_of d)) new_first of
              (Inl e, w1) \<Rightarrow> (Inl (e, new_first), w1)
            | (Inr new_last, w1) \<Rightarrow> (Inr (ptr_add new_last 1), w1))
      else (case reversible_uninitialised_move T w
                   (slots w (first_ptr d) (ptr_diff naked_at (first_ptr d))) new_first of
              (Inl e, w1) \<Rightarrow> (Inl (e, new_first), w1)
            | (Inr new_last, w1) \<Rightarrow>
               (case reversible_uninitialised_move T w1
                       (slots w1 naked_at (ptr_diff (last_ptr d) naked_at)) (ptr_add new_last 1) of
                  (Inl e, w2) \<Rightarrow> (Inl (e, ptr_add new_last 1), w2)
                | (Inr new_last2, w2) \<Rightarrow> (Inr new_last2, w2))))"

definition emplace_realloc ::
  "traits \<Rightarrow> bool \<Rightarrow> 'a world \<Rightarrow> darray \<Rightarrow> ptr \<Rightarrow> 'a \<Rightarrow> (ptr, 'a) result" where
  "emplace_realloc T may_throw w d naked_at v =
     (case calculate_growth d (capacity_w d + 1) of
        Inl e \<Rightarrow> (Inl e, d, w)
      | Inr nc \<Rightarrow>
      (let new_capacity = unat nc in
       case allocate w (alloc d) new_capacity of
        (Inl e, w1) \<Rightarrow> (Inl e, d, w1)
      | (Inr new_first, w1) \<Rightarrow>
      (let construct_at = ptr_add new_first (ptr_diff naked_at (first_ptr d)) in
       case construct may_throw w1 construct_at v of
        (Inl e, w2) \<Rightarrow>
          (Inl e, d, if is_exception e then deallocate w2 new_first new_capacity else w2)
      | (Inr u, w2) \<Rightarrow>
      (case emplace_migrate T w2 d naked_at new_first of
        (Inl (e, new_last), w3) \<Rightarrow>
          if is_exception e
          then (case destroy (destroy_range w3 new_first new_last) construct_at of
                  (Inl f, w4) \<Rightarrow> (Inl f, d, w4)
                | (Inr u, w4) \<Rightarrow> (Inl e, d, deallocate w4 new_first new_capacity))
          else (Inl e, d, w3)
      | (Inr new_last, w3) \<Rightarrow>
          (case replace w3 d new_first new_last new_capacity of
             (d1, w4) \<Rightarrow> (Inr construct_at, d1, w4))))))"

definition emplace ::
  "traits \<Rightarrow> bool \<Rightarrow> 'a world \<Rightarrow> darray \<Rightarrow> ptr \<Rightarrow> 'a \<Rightarrow> (ptr, 'a) result" where
  "emplace T may_throw w d naked_at v =
     (if last_ptr d \<noteq> end_ptr d
      then (if naked_at = last_ptr d
            then (case u_emplace_back may_throw w d v of
                    (Inl e, d1, w1) \<Rightarrow> (Inl e, d1, w1)
                  | (Inr u, d1, w1) \<Rightarrow> (Inr naked_at, d1, w1))
            else emplace_shift T may_throw w d naked_at v)
      else emplace_realloc T may_throw w d naked_at v)"

definition emplace_back :: "traits \<Rightarrow> bool \<Rightarrow> 'a world \<Rightarrow> darray \<Rightarrow> 'a \<Rightarrow> (ptr, 'a) result" where
  "emplace_back T may_throw w d v = emplace T may_throw w d (last_ptr d) v"

definition push_back :: "traits \<Rightarrow> bool \<Rightarrow> 'a world \<Rightarrow> darray \<Rightarrow> 'a \<Rightarrow> (unit, 'a) result" where
  "push_back T moved w d v =
     (case emplace_back T (if moved then \<not> is_nothrow_move_constructible T else True) w d v of
        (Inl e, d1, w1) \<Rightarrow> (Inl e, d1, w1)
      | (Inr p, d1, w1) \<Rightarrow> (Inr (), d1, w1))"

text \<open>The loop \<open>for (; first != last; ++first) emplace_back(*first)\<close> over a single-pass
  source, given by the values it yields.\<close>

fun emplace_back_all :: "traits \<Rightarrow> 'a world \<Rightarrow> darray \<Rightarrow> 'a list \<Rightarrow> (unit, 'a) result" where
  "emplace_back_all T w d [] = (Inr (), d, w)"
| "emplace_back_all T w d (v # vs) =
     (case emplace_back T True w d v of
        (Inl e, d1, w1) \<Rightarrow> (Inl e, d1, w1)
      | (Inr p, d1, w1) \<Rightarrow> emplace_back_all T w1 d1 vs)"

subsection \<open>Assignment\<close>

text \<open>
  A multi-pass source range is given by its slots and by whether it is read through move
  iterators; \<open>std::move_iterator\<close> over a pointer is taken to model
  \<open>std::forward_iterator\<close> (P2520, applied by the standard libraries to C++20 as well).
  A range of another container is read with \<open>slots\<close> from that container's block.
\<close>

definition ctor_throws :: "traits \<Rightarrow> bool \<Rightarrow> bool" where
  "ctor_throws T moved = (if moved then \<not> is_nothrow_move_constructible T else True)"

definition assign_throws :: "traits \<Rightarrow> bool \<Rightarrow> bool" where
  "assign_throws T moved = (if moved then \<not> is_nothrow_move_assignable T else True)"

definition unallocated_assign ::
  "bool \<Rightarrow> 'a world \<Rightarrow> darray \<Rightarrow> 'a option list \<Rightarrow> nat \<Rightarrow> (unit, 'a) result" where
  "unallocated_assign may_throw w d src cap =
     (case ctg_duplicate may_throw w (alloc d) src cap of
        (Inl e, w1) \<Rightarrow> (Inl e, d, w1)
      | (Inr (new_first, new_last), w1) \<Rightarrow>
          (Inr (), d\<lparr>first_ptr := new_first, last_ptr := new_last,
                      end_ptr := ptr_add new_first cap\<rparr>, w1))"

definition resize_assign ::
  "bool \<Rightarrow> 'a world \<Rightarrow> darray \<Rightarrow> allocator \<Rightarrow> 'a option list \<Rightarrow> nat \<Rightarrow> (unit, 'a) result"
where
  "resize_assign may_throw w d a src new_capacity =
     (case ctg_duplicate may_throw w a src new_capacity of
        (Inl e, w1) \<Rightarrow> (Inl e, d, w1)
      | (Inr (new_first, new_last), w1) \<Rightarrow>
          (case replace w1 d new_first new_last new_capacity of
             (d1, w2) \<Rightarrow> (Inr (), d1, w2)))"

definition alt_alloc_assign ::
  "traits \<Rightarrow> bool \<Rightarrow> 'a world \<Rightarrow> darray \<Rightarrow> allocator \<Rightarrow> 'a option list \<Rightarrow> (unit, 'a) result"
where
  "alt_alloc_assign T moved w d alt_alloc src =
     (let range_size = length src in
      if capacity d < range_size
      then resize_assign (ctor_throws T moved) w d alt_alloc src range_size
      else if size_of d < range_size
      then (case copy_until_sentinel (assign_throws T moved) w src (first_ptr d) (size_of d) of
              (Inl e, w1) \<Rightarrow> (Inl e, d, w1)
            | (Inr rest, w1) \<Rightarrow>
               (case uninitialised_transfer (ctor_throws T moved) w1 rest (last_ptr d) of
                  (Inl e, w2) \<Rightarrow> (Inl e, d, w2)
                | (Inr new_last, w2) \<Rightarrow> (Inr (), d\<lparr>last_ptr := new_last\<rparr>, w2)))
      else (case copy_from (assign_throws T moved) w src (first_ptr d) of
              (Inl e, w1) \<Rightarrow> (Inl e, d, w1)
            | (Inr new_last, w1) \<Rightarrow>
                (Inr (), d\<lparr>last_ptr := new_last\<rparr>, destroy_range w1 new_last (last_ptr d))))"

definition assign_fwd ::
  "traits \<Rightarrow> bool \<Rightarrow> 'a world \<Rightarrow> darray \<Rightarrow> 'a option list \<Rightarrow> (unit, 'a) result" where
  "assign_fwd T moved w d src = alt_alloc_assign T moved w d (alloc d) src"

text \<open>\<open>assign\<close> from a single-pass source (case 4), given by the values it yields.\<close>

definition assign_input :: "traits \<Rightarrow> 'a world \<Rightarrow> darray \<Rightarrow> 'a list \<Rightarrow> (unit, 'a) result" where
  "assign_input T w d src =
     (let n = min (size_of d) (length src) in
      case copy_from True w (map Some (take n src)) (first_ptr d) of
        (Inl e, w1) \<Rightarrow> (Inl e, d, w1)
      | (Inr new_last, w1) \<Rightarrow>
          emplace_back_all T (destroy_range w1 new_last (last_ptr d))
            (d\<lparr>last_ptr := new_last\<rparr>) (drop n src))"

text \<open>\<open>operator=(const darray& other)\<close>, for \<open>other\<close> another object than \<open>*this\<close>.\<close>

definition copy_assign :: "traits \<Rightarrow> 'a world \<Rightarrow> darray \<Rightarrow> darray \<Rightarrow> (unit, 'a) result" where
  "copy_assign T w d other =
     (if propagate_on_container_copy_assignment T
      then (if \<not> is_always_equal T \<and> alloc d \<noteq> alloc other
            then (case alt_alloc_assign T False w d (alloc other)
                         (slots w (first_ptr other) (ptr_diff (last_ptr other) (first_ptr other))) of
                    (Inl e, d1, w1) \<Rightarrow> (Inl e, d1, w1)
                  | (Inr u, d1, w1) \<Rightarrow> (Inr (), d1\<lparr>alloc := alloc other\<rparr>, w1))
            else assign_fwd T False w (d\<lparr>alloc := alloc other\<rparr>)
                   (slots w (first_ptr other) (ptr_diff (end_ptr other) (first_ptr other))))
      else assign_fwd T False w d
             (slots w (first_ptr other) (ptr_diff (end_ptr other) (first_ptr other))))"

text \<open>\<open>operator=(darray&& other) noexcept\<close>: the outcome, \<open>*this\<close>, \<open>other\<close> and the
  world. An exception that would leave the function ends the program.\<close>

definition move_assign ::
  "traits \<Rightarrow> 'a world \<Rightarrow> darray \<Rightarrow> darray \<Rightarrow> (error + unit) \<times> darray \<times> darray \<times> 'a world" where
  "move_assign T w d other =
     (if \<not> propagate_on_container_move_assignment T
      then (if \<not> is_always_equal T \<and> alloc d \<noteq> alloc other
            then (case assign_fwd T True w d
                         (slots w (first_ptr other) (ptr_diff (last_ptr other) (first_ptr other))) of
                    (Inl e, d1, w1) \<Rightarrow>
                      (Inl (if is_exception e then Fault Terminate else e), d1, other, w1)
                  | (Inr u, d1, w1) \<Rightarrow> (Inr (), d1, other, w1))
            else (case steal d other of
                    (d1, other1) \<Rightarrow> (Inr (), d1, other1, clear_dealloc w d)))
      else (case steal (d\<lparr>alloc := alloc other\<rparr>) other of
              (d1, other1) \<Rightarrow> (Inr (), d1, other1, clear_dealloc w d)))"

subsection \<open>Constructors\<close>

definition alloc_construct :: "allocator \<Rightarrow> darray" where
  "alloc_construct a = \<lparr>first_ptr = Null, last_ptr = Null, end_ptr = Null, alloc = a\<rparr>"

definition copy_construct_alloc ::
  "'a world \<Rightarrow> darray \<Rightarrow> allocator \<Rightarrow> (error + darray) \<times> 'a world" where
  "copy_construct_alloc w other a =
     (case unallocated_assign True w (alloc_construct a)
             (slots w (first_ptr other) (ptr_diff (last_ptr other) (first_ptr other)))
             (capacity other) of
        (Inl e, d1, w1) \<Rightarrow> (Inl e, w1)
      | (Inr u, d1, w1) \<Rightarrow> (Inr d1, w1))"

text \<open>\<open>select_on_container_copy_construction\<close> is taken to copy the allocator.\<close>

definition copy_construct :: "'a world \<Rightarrow> darray \<Rightarrow> (error + darray) \<times> 'a world" where
  "copy_construct w other = copy_construct_alloc w other (alloc other)"

definition move_construct_alloc ::
  "traits \<Rightarrow> 'a world \<Rightarrow> darray \<Rightarrow> allocator \<Rightarrow> (error + darray \<times> darray) \<times> 'a world" where
  "move_construct_alloc T w other a =
     (if \<not> is_always_equal T \<and> a \<noteq> alloc other
      then (case unallocated_assign (ctor_throws T True) w (alloc_construct a)
                   (slots w (first_ptr other) (ptr_diff (last_ptr other) (first_ptr other)))
                   (capacity other) of
              (Inl e, d1, w1) \<Rightarrow> (Inl e, w1)
            | (Inr u, d1, w1) \<Rightarrow> (Inr (d1, other), w1))
      else (Inr (steal (alloc_construct a) other), w))"

definition construct_input ::
  "traits \<Rightarrow> 'a world \<Rightarrow> 'a list \<Rightarrow> allocator \<Rightarrow> (error + darray) \<times> 'a world" where
  "construct_input T w src a =
     (case emplace_back_all T w (alloc_construct a) src of
        (Inl e, d1, w1) \<Rightarrow> (Inl e, w1)
      | (Inr u, d1, w1) \<Rightarrow> (Inr d1, w1))"

definition construct_fwd ::
  "'a world \<Rightarrow> 'a option list \<Rightarrow> allocator \<Rightarrow> (error + darray) \<times> 'a world" where
  "construct_fwd w src a =
     (case unallocated_assign True w (alloc_construct a) src (length src) of
        (Inl e, d1, w1) \<Rightarrow> (Inl e, w1)
      | (Inr u, d1, w1) \<Rightarrow> (Inr d1, w1))"

subsection \<open>insert\<close>

definition insert_input ::
  "traits \<Rightarrow> 'a world \<Rightarrow> darray \<Rightarrow> ptr \<Rightarrow> 'a list \<Rightarrow> (unit, 'a) result" where
  "insert_input T w d naked_at src =
     (let at_index = ptr_diff naked_at (first_ptr d);
          prev_size = size_of d
      in case emplace_back_all T w d src of
           (Inl e, d1, w1) \<Rightarrow> (Inl e, d1, w1)
         | (Inr u, d1, w1) \<Rightarrow>
             if at_index \<noteq> prev_size
             then (case rotate_range T w1 (ptr_add (first_ptr d1) at_index)
                          (ptr_add (first_ptr d1) prev_size) (last_ptr d1) of
                     (Inl e, w2) \<Rightarrow> (Inl e, d1, w2)
                   | (Inr u, w2) \<Rightarrow> (Inr (), d1, w2))
             else (Inr (), d1, w1))"

text \<open>The reallocating branch of the multi-pass \<open>insert\<close>.\<close>

definition insert_realloc ::
  "traits \<Rightarrow> 'a world \<Rightarrow> darray \<Rightarrow> ptr \<Rightarrow> 'a option list \<Rightarrow> (unit, 'a) result" where
  "insert_realloc T w d naked_at src =
     (case calculate_growth d (size_w d + word_of_nat (length src)) of
        Inl e \<Rightarrow> (Inl e, d, w)
      | Inr nc \<Rightarrow>
      (let new_capacity = unat nc in
       case allocate w (alloc d) new_capacity of
        (Inl e, w1) \<Rightarrow> (Inl e, d, w1)
      | (Inr new_first, w1) \<Rightarrow>
      (let constructed_last = ptr_add new_first (ptr_diff naked_at (first_ptr d)) in
       case uninitialised_copy w1 src constructed_last of
        (Inl e, w2) \<Rightarrow>
          (Inl e, d, if is_exception e then deallocate w2 new_first new_capacity else w2)
      | (Inr new_last, w2) \<Rightarrow>
      (case reversible_uninitialised_move T w2
              (slots w2 (first_ptr d) (ptr_diff naked_at (first_ptr d))) new_first of
        (Inl e, w3) \<Rightarrow>
          (Inl e, d,
           if is_exception e
           then deallocate (destroy_range w3 constructed_last new_last) new_first new_capacity
           else w3)
      | (Inr q, w3) \<Rightarrow>
      (case reversible_uninitialised_move T w3
              (slots w3 naked_at (ptr_diff (last_ptr d) naked_at)) new_last of
        (Inl e, w4) \<Rightarrow>
          (Inl e, d,
           if is_exception e
           then deallocate (destroy_range w4 new_first new_last) new_first new_capacity
           else w4)
      | (Inr new_last2, w4) \<Rightarrow>
          (case replace w4 d new_first new_last2 new_capacity of
             (d1, w5) \<Rightarrow> (Inr (), d1, w5)))))))"

text \<open>The branch with enough spare capacity, when the inserted range is shorter than
  the run of elements behind the position: first the shift by assignment of the elements
  that stay below the old end (with its handler), then the whole branch.\<close>

definition insert_shift_back ::
  "traits \<Rightarrow> 'a world \<Rightarrow> darray \<Rightarrow> ptr \<Rightarrow> ptr \<Rightarrow> ptr \<Rightarrow> (ptr, 'a) result" where
  "insert_shift_back T w1 d naked_at uninit_shift_begin new_last =
     (if is_nothrow_move_assignable T
      then (case backward_within False w1 naked_at
                   (ptr_diff uninit_shift_begin naked_at) (last_ptr d) of
              (Inl e, w2) \<Rightarrow> (Inl e, d, w2)
            | (Inr insert_end, w2) \<Rightarrow> (Inr insert_end, d, w2))
      else (case backward_within True w1 naked_at
                   (ptr_diff uninit_shift_begin naked_at) (last_ptr d) of
              (Inr insert_end, w2) \<Rightarrow> (Inr insert_end, d, w2)
            | (Inl e, w2) \<Rightarrow>
                if \<not> is_exception e then (Inl e, d, w2)
                else (case move_within True w2 (last_ptr d)
                             (ptr_diff new_last (last_ptr d)) uninit_shift_begin of
                        (Inl e2, w3) \<Rightarrow>
                          if is_exception e2 then (Inl e2, d\<lparr>last_ptr := new_last\<rparr>, w3)
                          else (Inl e2, d, w3)
                      | (Inr q, w3) \<Rightarrow>
                          (Inl e, d, destroy_range w3 (last_ptr d) new_last))))"

definition insert_shift_short ::
  "traits \<Rightarrow> 'a world \<Rightarrow> darray \<Rightarrow> ptr \<Rightarrow> 'a option list \<Rightarrow> (unit, 'a) result" where
  "insert_shift_short T w d naked_at src =
     (let range_size = length src;
          uninit_shift_begin = ptr_sub (last_ptr d) range_size
      in
      case reversible_uninitialised_move T w (slots w uninit_shift_begin range_size) (last_ptr d) of
        (Inl e, w1) \<Rightarrow> (Inl e, d, w1)
      | (Inr new_last, w1) \<Rightarrow>
      (case insert_shift_back T w1 d naked_at uninit_shift_begin new_last of
        (Inl e, d2, w2) \<Rightarrow> (Inl e, d2, w2)
      | (Inr insert_end, d2, w2) \<Rightarrow>
      (case copy_from True w2 src naked_at of
        (Inr q, w3) \<Rightarrow> (Inr (), d\<lparr>last_ptr := new_last\<rparr>, w3)
      | (Inl e, w3) \<Rightarrow>
          if \<not> is_exception e then (Inl e, d, w3)
          else (case move_within (\<not> is_nothrow_move_assignable T) w3 insert_end
                       (ptr_diff new_last insert_end) naked_at of
                  (Inl e2, w4) \<Rightarrow>
                    if is_exception e2 then (Inl e2, d\<lparr>last_ptr := new_last\<rparr>, w4)
                    else (Inl e2, d, w4)
                | (Inr q, w4) \<Rightarrow> (Inl e, d, destroy_range w4 (last_ptr d) new_last)))))"

text \<open>The branch with enough spare capacity, when the inserted range reaches the raw
  storage behind the elements.\<close>

definition insert_shift_long ::
  "traits \<Rightarrow> 'a world \<Rightarrow> darray \<Rightarrow> ptr \<Rightarrow> 'a option list \<Rightarrow> (unit, 'a) result" where
  "insert_shift_long T w d naked_at src =
     (let range_size = length src;
          shift_count = ptr_diff (last_ptr d) naked_at;
          uninit_shift_dest = ptr_add naked_at range_size
      in
      case reversible_uninitialised_move T w (slots w naked_at shift_count) uninit_shift_dest of
        (Inl e, w1) \<Rightarrow> (Inl e, d, w1)
      | (Inr new_last, w1) \<Rightarrow>
      (case (case copy_until_sentinel True w1 src naked_at shift_count of
               (Inl e, w2) \<Rightarrow> (Inl e, w2)
             | (Inr rest, w2) \<Rightarrow> uninitialised_copy w2 rest (last_ptr d)) of
        (Inr q, w3) \<Rightarrow> (Inr (), d\<lparr>last_ptr := new_last\<rparr>, w3)
      | (Inl e, w3) \<Rightarrow>
          if \<not> is_exception e then (Inl e, d, w3)
          else (case move_within (\<not> is_nothrow_move_assignable T) w3 uninit_shift_dest
                       (ptr_diff new_last uninit_shift_dest) naked_at of
                  (Inl e2, w4) \<Rightarrow>
                    if is_exception e2
                    then (Inl e, d, destroy_range w4 uninit_shift_dest new_last)
                    else (Inl e2, d, w4)
                | (Inr q, w4) \<Rightarrow> (Inl e, d, destroy_range w4 uninit_shift_dest new_last))))"

definition insert_fwd ::
  "traits \<Rightarrow> 'a world \<Rightarrow> darray \<Rightarrow> ptr \<Rightarrow> 'a option list \<Rightarrow> (unit, 'a) result" where
  "insert_fwd T w d naked_at src =
     (if \<not> (ptr_le (first_ptr d) naked_at \<and> ptr_le naked_at (last_ptr d))
      then (Inl (Fault DebugVerify), d, w)
      else let range_size = length src;
               unused_capacity = ptr_diff (end_ptr d) (last_ptr d)
           in if range_size = 0 then (Inr (), d, w)
              else if unused_capacity < range_size then insert_realloc T w d naked_at src
              else if range_size < ptr_diff (last_ptr d) naked_at
              then insert_shift_short T w d naked_at src
              else insert_shift_long T w d naked_at src)"

subsection \<open>reserve and shrink_to_fit\<close>

definition unchecked_grow_exactly :: "traits \<Rightarrow> 'a world \<Rightarrow> darray \<Rightarrow> nat \<Rightarrow> (unit, 'a) result" where
  "unchecked_grow_exactly T w d new_capacity =
     (if is_nothrow_move_constructible T
      then (case allocate w (alloc d) new_capacity of
              (Inl e, w1) \<Rightarrow> (Inl e, d, w1)
            | (Inr new_first, w1) \<Rightarrow>
               (case uninitialised_move w1
                       (slots w1 (first_ptr d) (ptr_diff (last_ptr d) (first_ptr d))) new_first of
                  (Inl e, w2) \<Rightarrow> (Inl e, d, w2)
                | (Inr new_last, w2) \<Rightarrow>
                   (case replace w2 d new_first new_last new_capacity of
                      (d1, w3) \<Rightarrow> (Inr (), d1, w3))))
      else resize_assign True w d (alloc d)
             (slots w (first_ptr d) (ptr_diff (end_ptr d) (first_ptr d))) new_capacity)"

definition reserve :: "traits \<Rightarrow> 'a world \<Rightarrow> darray \<Rightarrow> nat \<Rightarrow> (unit, 'a) result" where
  "reserve T w d n =
     (if capacity d < n then unchecked_grow_exactly T w d n else (Inr (), d, w))"

definition shrink_to_fit :: "traits \<Rightarrow> 'a world \<Rightarrow> darray \<Rightarrow> (unit, 'a) result" where
  "shrink_to_fit T w d =
     (if last_ptr d \<noteq> end_ptr d
      then (case (case allocate w (alloc d) (size_of d) of
                    (Inl e, w1) \<Rightarrow> (Inl e, d, w1)
                  | (Inr new_first, w1) \<Rightarrow>
                     (case reversible_uninitialised_move T w1
                             (slots w1 (first_ptr d) (size_of d)) new_first of
                        (Inl e, w2) \<Rightarrow>
                          (Inl e, d,
                           if is_exception e then deallocate w2 new_first (size_of d) else w2)
                      | (Inr new_last, w2) \<Rightarrow>
                         (case replace w2 d new_first new_last (size_of d) of
                            (d1, w3) \<Rightarrow> (Inr (), d1, w3)))) of
              (Inl e, d1, w1) \<Rightarrow>
                (Inl (if is_exception e \<and>
                         (is_nothrow_move_constructible T \<or> is_nothrow_copy_constructible T)
                      then Fault Terminate else e), d1, w1)
            | (Inr u, d1, w1) \<Rightarrow> (Inr (), d1, w1))
      else (Inr (), d, w))"

subsection \<open>Accessors\<close>

definition unchecked_front :: "'a world \<Rightarrow> darray \<Rightarrow> error + 'a" where
  "unchecked_front w d =
     (if empty d then Inl (Fault DebugVerify) else load w (first_ptr d))"

definition unchecked_back :: "'a world \<Rightarrow> darray \<Rightarrow> error + 'a" where
  "unchecked_back w d =
     (if empty d then Inl (Fault DebugVerify) else load w (ptr_sub (last_ptr d) 1))"

definition front :: "'a world \<Rightarrow> darray \<Rightarrow> error + 'a" where
  "front w d = (if \<not> empty d then unchecked_front w d else Inl OutOfRange)"

definition "back" :: "'a world \<Rightarrow> darray \<Rightarrow> error + 'a" where
  "back w d = (if \<not> empty d then unchecked_back w d else Inl OutOfRange)"

section \<open>Frames and well-formed worlds\<close>

text \<open>\<open>only_block b w w'\<close>: from \<open>w\<close> to \<open>w'\<close> no block but \<open>b\<close> has changed.
  A world is well formed when no block lies at or above the next unused identifier;
  \<open>no_new_block w w'\<close>: from \<open>w\<close> to \<open>w'\<close> no block has appeared;
  \<open>same_lengths w w'\<close>: every block has kept its number of slots.\<close>

definition only_block :: "nat \<Rightarrow> 'a world \<Rightarrow> 'a world \<Rightarrow> bool" where
  "only_block b w w' = (\<forall>b'. b' \<noteq> b \<longrightarrow> heap w' b' = heap w b')"



definition blen :: "'a world \<Rightarrow> nat \<Rightarrow> nat" where
  "blen w b = (case heap w b of None \<Rightarrow> 0 | Some cs \<Rightarrow> length cs)"

definition same_lengths :: "'a world \<Rightarrow> 'a world \<Rightarrow> bool" where
  "same_lengths w w' = (\<forall>b. blen w' b = blen w b)"


section \<open>The public mutating operations\<close>

text \<open>
  The public member functions that change a container, as values: \<open>perform\<close> runs one
  on a container and returns the outcome with the container and the world afterwards.
  \<open>valid_args\<close> is the precondition on the positions handed in: \<open>erase\<close> takes a
  valid iterator pair, \<open>emplace\<close> a position of the container or its end (the
  multi-pass \<open>insert\<close> verifies its position itself). Move assignment and the
  constructors involve a second container or create one and are stated apart.
\<close>

datatype 'a operation =
    Assign bool "'a option list"
  | Assign_single_pass "'a list"
  | Alt_alloc_assign allocator bool "'a option list"
  | Copy_assign darray
  | Erase ptr ptr
  | U_emplace_back bool 'a
  | Upush_back bool 'a
  | Emplace bool ptr 'a
  | Emplace_back bool 'a
  | Push_back bool 'a
  | Insert_single_pass ptr "'a list"
  | Insert ptr "'a option list"
  | Reserve nat
  | Shrink_to_fit

definition discard :: "('r, 'a) result \<Rightarrow> (unit, 'a) result" where
  "discard x = (case x of (Inl e, d, w) \<Rightarrow> (Inl e, d, w) | (Inr p, d, w) \<Rightarrow> (Inr (), d, w))"

fun perform :: "traits \<Rightarrow> 'a world \<Rightarrow> darray \<Rightarrow> 'a operation \<Rightarrow> (unit, 'a) result" where
  "perform T w d (Assign moved src) = assign_fwd T moved w d src"
| "perform T w d (Assign_single_pass src) = assign_input T w d src"
| "perform T w d (Alt_alloc_assign a moved src) = alt_alloc_assign T moved w d a src"
| "perform T w d (Copy_assign other) = copy_assign T w d other"
| "perform T w d (Erase p q) = (case erase w d p q of (d1, w1) \<Rightarrow> (Inr (), d1, w1))"
| "perform T w d (U_emplace_back may_throw v) = u_emplace_back may_throw w d v"
| "perform T w d (Upush_back moved v) = upush_back T moved w d v"
| "perform T w d (Emplace may_throw naked_at v) = discard (emplace T may_throw w d naked_at v)"
| "perform T w d (Emplace_back may_throw v) = discard (emplace_back T may_throw w d v)"
| "perform T w d (Push_back moved v) = push_back T moved w d v"
| "perform T w d (Insert_single_pass naked_at src) = insert_input T w d naked_at src"
| "perform T w d (Insert naked_at src) = insert_fwd T w d naked_at src"
| "perform T w d (Reserve n) = reserve T w d n"
| "perform T w d Shrink_to_fit = shrink_to_fit T w d"

fun valid_args :: "darray \<Rightarrow> 'a operation \<Rightarrow> bool" where
  "valid_args d (Erase p q) = (ptr_le (first_ptr d) p \<and> ptr_le p q \<and> ptr_le q (last_ptr d))"
| "valid_args d (Emplace may_throw naked_at v) =
     (ptr_le (first_ptr d) naked_at \<and> ptr_le naked_at (last_ptr d))"
| "valid_args d other_operation = True"

section \<open>Example states\<close>

text \<open>An element type whose copies and moves may throw, with a stateless allocator;
  a world holding one block; a container over the slots of a block.\<close>

definition throwing_type :: traits where
  "throwing_type =
     \<lparr>propagate_on_container_copy_assignment = False,
      propagate_on_container_move_assignment = True,
      is_always_equal = True,
      is_nothrow_move_constructible = False,
      is_nothrow_copy_constructible = False,
      is_nothrow_move_assignable = False\<rparr>"

definition std_alloc :: allocator where
  "std_alloc = \<lparr>alloc_id = 0, max_size = 1000\<rparr>"

definition one_block :: "'a option list \<Rightarrow> bool list \<Rightarrow> 'a world" where
  "one_block cells schedule =
     \<lparr>heap = (\<lambda>b. None)(0 \<mapsto> cells), fresh = 1, throws = schedule, bad_destroys = 0\<rparr>"

definition darray_at :: "nat \<Rightarrow> nat \<Rightarrow> nat \<Rightarrow> darray" where
  "darray_at b n m =
     \<lparr>first_ptr = Ptr b 0, last_ptr = Ptr b n, end_ptr = Ptr b m, alloc = std_alloc\<rparr>"

section \<open>Properties\<close>

subsection \<open>Growth policy\<close>

lemma unat_drop_bit_1: "unat (drop_bit 1 (x :: 64 word)) = unat x div 2"
  by (simp add: unat_drop_bit_eq drop_bit_eq_div unat_div)

text \<open>
  C5. For a container whose size does not exceed the allocator's maximum, the growth
  computation agrees with the specified policy: it fails with CapacityOverflow when the
  required minimum exceeds the maximum, returns the maximum when size + size/2 would
  exceed it, and max(minRequired, size + size/2) otherwise.
\<close>

theorem calculate_growth_refines_spec:
  assumes "size_of d \<le> unat (max_size (alloc d))"
  shows "map_sum id unat (calculate_growth d m) =
         nextCapacity_spec (unat (max_size (alloc d))) (size_of d) (unat m)"
proof -
  let ?M = "max_size (alloc d)"
  have lt: "size_of d < 2 ^ 64"
    using assms unsigned_less [of ?M, where ?'a = nat] by simp
  have s: "unat (size_w d) = size_of d"
    using assms by (simp add: size_w_def le_unat_uoi)
  have h: "unat (drop_bit 1 (size_w d)) = size_of d div 2"
    using unat_drop_bit_1 [of "size_w d"] s by simp
  have hle: "drop_bit 1 (size_w d) \<le> ?M"
    using assms h by (simp add: word_le_nat_alt)
  have sub: "unat (?M - drop_bit 1 (size_w d)) = unat ?M - size_of d div 2"
    using hle h by (simp add: unat_sub)
  have cmp: "(?M - drop_bit 1 (size_w d) < size_w d) = (unat ?M < size_of d + size_of d div 2)"
    using assms sub s by (auto simp: word_less_nat_alt)
  have add: "\<not> unat ?M < size_of d + size_of d div 2 \<Longrightarrow>
             unat (size_w d + drop_bit 1 (size_w d)) = size_of d + size_of d div 2"
  proof -
    assume a: "\<not> unat ?M < size_of d + size_of d div 2"
    have "unat ?M < 2 ^ 64" using unsigned_less [of ?M, where ?'a = nat] by simp
    with a have "size_of d + size_of d div 2 < 2 ^ 64" by linarith
    then show ?thesis using s h by (simp add: unat_word_ariths)
  qed
  show ?thesis
    using add cmp
    by (auto simp: calculate_growth_def nextCapacity_spec_def Let_def word_less_nat_alt
        max_def word_le_nat_alt)
qed

theorem calculate_growth_refines_spec_witness:
  "size_of (darray_at 0 4 4) \<le> unat (max_size (alloc (darray_at 0 4 4))) \<and>
   map_sum id unat (calculate_growth (darray_at 0 4 4) 5) = Inr 6"
  using calculate_growth_refines_spec [of "darray_at 0 4 4" 5]
  by (simp add: darray_at_def std_alloc_def size_of_def ptr_diff_def nextCapacity_spec_def)

subsection \<open>The representation invariant\<close>

lemma ptr_add_add: "ptr_add (ptr_add p i) j = ptr_add p (i + j)"
  by (cases p) auto

lemma ptr_add_0: "ptr_add p 0 = p"
  by (cases p) auto

lemma rep_size: "rep w d xs cap \<Longrightarrow> size_of d = length xs"
  by (auto simp: rep_def size_of_def ptr_diff_def split: ptr.splits)

lemma rep_capacity: "rep w d xs cap \<Longrightarrow> capacity d = cap"
  by (auto simp: rep_def capacity_def ptr_diff_def split: ptr.splits)

lemma rep_empty: "rep w d xs cap \<Longrightarrow> empty d = (xs = [])"
  by (auto simp: rep_def empty_def split: ptr.splits)

lemma rep_layout: "rep w d xs cap \<Longrightarrow> layout d"
  by (auto simp: rep_def layout_def split: ptr.splits)

lemma rep_load:
  "rep w d xs cap \<Longrightarrow> i < length xs \<Longrightarrow> load w (ptr_add (first_ptr d) i) = Inr (xs ! i)"
  by (auto simp: rep_def nth_append split: ptr.splits)

lemma rep_slot:
  "rep w d xs cap \<Longrightarrow> i < length xs \<Longrightarrow> slot w (ptr_add (first_ptr d) i) = Some (xs ! i)"
  by (auto simp: rep_def nth_append split: ptr.splits)


lemma rep_slots:
  "rep w d xs cap \<Longrightarrow> i + n \<le> length xs \<Longrightarrow>
   slots w (ptr_add (first_ptr d) i) n = map Some (take n (drop i xs))"
  by (auto simp: slots_def ptr_add_add rep_slot intro!: nth_equalityI)

subsection \<open>Checked accessors\<close>

lemma front_rep:
  "rep w d xs cap \<Longrightarrow> front w d = (if xs = [] then Inl OutOfRange else Inr (hd xs))"
  using rep_load [of w d xs cap 0]
  by (cases "first_ptr d") (auto simp: front_def unchecked_front_def rep_empty hd_conv_nth)

lemma back_rep:
  "rep w d xs cap \<Longrightarrow> back w d = (if xs = [] then Inl OutOfRange else Inr (last xs))"
  using rep_load [of w d xs cap "length xs - 1"]
  apply (auto simp: back_def unchecked_back_def rep_empty last_conv_nth)
  apply (auto simp: rep_def split: ptr.splits)
  done

text \<open>
  C6. For a container holding the elements xs, front() and back() fail with OutOfRange
  exactly when the container is empty, and otherwise return the first and the last live
  element. Both are const member functions: they return a value and no new state.
\<close>

theorem front_back_checked:
  assumes "rep w d xs cap"
  shows "(front w d = Inl OutOfRange \<longleftrightarrow> empty d) \<and>
         (back w d = Inl OutOfRange \<longleftrightarrow> empty d) \<and>
         (\<not> empty d \<longrightarrow> front w d = Inr (hd xs) \<and> back w d = Inr (last xs))"
  using assms by (simp add: front_rep back_rep rep_empty)

theorem front_back_checked_witness:
  "rep (one_block [Some 7, Some 8, Some 9, None] []) (darray_at 0 3 4) [7, 8, 9 :: int] 4 \<and>
   \<not> empty (darray_at 0 3 4) \<and>
   front (one_block [Some 7, Some 8, Some 9, None] []) (darray_at 0 3 4) = Inr (7 :: int) \<and>
   back (one_block [Some 7, Some 8, Some 9, None] []) (darray_at 0 3 4) = Inr (9 :: int)"
proof -
  have r: "rep (one_block [Some 7, Some 8, Some 9, None] []) (darray_at 0 3 4) [7, 8, 9 :: int] 4"
    by (simp add: rep_def one_block_def darray_at_def)
  have e: "\<not> empty (darray_at 0 3 4)"
    by (simp add: empty_def darray_at_def)
  show ?thesis
    using front_back_checked [OF r] r e by simp
qed

subsection \<open>Moving a container\<close>

lemma destroy_frame: "b' \<noteq> b \<Longrightarrow> heap (snd (destroy w (Ptr b i))) b' = heap w b'"
  by (simp split: option.splits)

lemma destroy_n_frame: "b' \<noteq> b \<Longrightarrow> heap (destroy_n w (Ptr b i) n) b' = heap w b'"
  by (induction n arbitrary: w i) (simp_all add: destroy_frame del: destroy.simps)

lemma clear_dealloc_frame:
  "\<forall>i. first_ptr d \<noteq> Ptr b i \<Longrightarrow> heap (clear_dealloc w d) b = heap w b"
  by (cases "first_ptr d") (auto simp: clear_dealloc_def destroy_range_def destroy_n_frame)

lemma clear_dealloc_null: "first_ptr d = Null \<Longrightarrow> clear_dealloc w d = w"
  by (simp add: clear_dealloc_def)

text \<open>
  C9. Move construction, and move assignment when the allocator propagates on move
  assignment or the two allocators are equal, hand the three pointers of the source to
  the destination and leave the three pointers of the source null: the source has size 0
  and its destructor does nothing. The world changes only by the release of the block the
  destination held before; every other block, the transferred one among them, keeps its
  slots.
\<close>

theorem move_transfers_triad:
  assumes "propagate_on_container_move_assignment T \<or> is_always_equal T \<or> alloc d = alloc other"
  shows "(case move_construct other of
            (new, other') \<Rightarrow>
              first_ptr new = first_ptr other \<and> last_ptr new = last_ptr other \<and>
              end_ptr new = end_ptr other \<and>
              first_ptr other' = Null \<and> last_ptr other' = Null \<and> end_ptr other' = Null \<and>
              size_of other' = 0 \<and> clear_dealloc w other' = w) \<and>
         (case move_assign T w d other of
            (r, d', other', w') \<Rightarrow>
              r = Inr () \<and>
              first_ptr d' = first_ptr other \<and> last_ptr d' = last_ptr other \<and>
              end_ptr d' = end_ptr other \<and>
              first_ptr other' = Null \<and> last_ptr other' = Null \<and> end_ptr other' = Null \<and>
              size_of other' = 0 \<and> clear_dealloc w' other' = w' \<and>
              w' = clear_dealloc w d \<and>
              (\<forall>b. (\<forall>i. first_ptr d \<noteq> Ptr b i) \<longrightarrow> heap w' b = heap w b))"
  using assms
  by (auto simp: move_construct_def move_assign_def steal_def size_of_def ptr_diff_def
      clear_dealloc_null clear_dealloc_frame)

theorem move_transfers_triad_witness:
  "is_always_equal throwing_type \<and>
   (case move_assign throwing_type (one_block [Some 7, Some 8, None] []) (alloc_construct std_alloc)
           (darray_at 0 2 3) of
      (r, d', other', w') \<Rightarrow>
        r = Inr () \<and> d' = darray_at 0 2 3 \<and> other' = alloc_construct std_alloc \<and>
        heap w' 0 = Some [Some (7 :: int), Some 8, None])"
  using move_transfers_triad
    [of throwing_type "alloc_construct std_alloc" "darray_at 0 2 3"
        "one_block [Some 7, Some (8 :: int), None] []"]
  by (simp add: throwing_type_def alloc_construct_def darray_at_def one_block_def
      clear_dealloc_def move_assign_def steal_def move_construct_def)

subsection \<open>Inserting an empty range\<close>

text \<open>
  C10. Inserting an empty multi-pass range at a valid position returns at once: the
  container and the world (its blocks, so every element, the size and the capacity, and
  the set of allocated blocks) are the ones before the call.
\<close>

theorem insert_empty_range_noop:
  assumes "ptr_le (first_ptr d) naked_at" and "ptr_le naked_at (last_ptr d)"
  shows "insert_fwd T w d naked_at [] = (Inr (), d, w)"
  using assms by (simp add: insert_fwd_def)

theorem insert_empty_range_noop_witness:
  "ptr_le (first_ptr (darray_at 0 2 3)) (Ptr 0 1) \<and> ptr_le (Ptr 0 1) (last_ptr (darray_at 0 2 3)) \<and>
   insert_fwd throwing_type (one_block [Some 7, Some (8 :: int), None] []) (darray_at 0 2 3) (Ptr 0 1) []
     = (Inr (), darray_at 0 2 3, one_block [Some 7, Some 8, None] [])"
  using insert_empty_range_noop
    [of "darray_at 0 2 3" "Ptr 0 1" throwing_type "one_block [Some 7, Some (8 :: int), None] []"]
  by (simp add: darray_at_def)

subsection \<open>erase\<close>

text \<open>
  C1. On [1,2,3,4,5], erase of the positions 1 to 3 destroys the elements 2 and 3 and
  sets the end of the live range to position 1: the container is [1] with size 1 and
  capacity 5, and the elements 4 and 5 stay constructed behind the live range. The
  specified result is [1,4,5] with size 3.
\<close>

theorem erase_drops_tail:
  "(case erase (one_block [Some 1, Some 2, Some 3, Some 4, Some 5] []) (darray_at 0 5 5)
           (Ptr 0 1) (Ptr 0 3) of
      (d', w') \<Rightarrow>
        elements w' d' = [Inr (1 :: int)] \<and> size_of d' = 1 \<and> capacity d' = 5 \<and>
        heap w' 0 = Some [Some 1, None, None, Some 4, Some 5])"
  by code_simp

subsection \<open>Copies and reserve\<close>

text \<open>
  C2. Copy assignment reads the source from its first slot to the end of its capacity,
  not to the end of its elements. With a source [1] of capacity 2 it reads the raw slot
  behind the element; the destination does not become a copy of the source.
\<close>

theorem copy_assign_reads_raw_storage:
  "(case copy_assign throwing_type (one_block [Some 1, None] []) (alloc_construct std_alloc)
           (darray_at 0 1 2) of
      (r, d', w') \<Rightarrow>
        r = Inl (Fault UninitialisedRead) \<and> elements w' d' = [] \<and>
        elements w' (darray_at 0 1 2) = [Inr (1 :: int)])"
  by code_simp

text \<open>
  C7. For an element type that is not nothrow move constructible, reserve beyond the
  capacity copies the slots from the first one to the end of the capacity. With [1] of
  capacity 2, reserve(3) reads the raw slot behind the element and the capacity stays 2.
\<close>

theorem reserve_reads_raw_storage:
  "(case reserve throwing_type (one_block [Some 1, None] []) (darray_at 0 1 2) 3 of
      (r, d', w') \<Rightarrow>
        r = Inl (Fault UninitialisedRead) \<and> capacity d' = 2 \<and>
        elements w' d' = [Inr (1 :: int)])"
  by code_simp

subsection \<open>Frames of the primitives\<close>

lemma only_block_refl: "only_block b w w"
  by (simp add: only_block_def)

lemma only_block_trans: "only_block b w w1 \<Longrightarrow> only_block b w1 w2 \<Longrightarrow> only_block b w w2"
  by (simp add: only_block_def)

lemma tick_heap: "tick mt w = (t, w') \<Longrightarrow> heap w' = heap w"
  by (auto simp: tick_def split: if_splits list.splits)

lemma construct_only_block: "construct mt w (Ptr b i) v = (r, w') \<Longrightarrow> only_block b w w'"
  by (auto simp: only_block_def split: option.splits if_splits prod.splits bool.splits dest: tick_heap)


lemma destroy_n_only_block: "only_block b w (destroy_n w (Ptr b i) n)"
  by (simp add: only_block_def destroy_n_frame)



lemma uninitialised_transfer_only_block:
  "uninitialised_transfer mt w src (Ptr b i) = (r, w') \<Longrightarrow> only_block b w w'"
proof (induction src arbitrary: w i r w')
  case Nil
  then show ?case by (simp add: only_block_refl)
next
  case (Cons c cs)
  show ?case
  proof (cases c)
    case None
    with Cons.prems show ?thesis by (simp add: only_block_refl)
  next
    case (Some v)
    obtain r1 w1 where c1: "construct mt w (Ptr b i) v = (r1, w1)" by fastforce
    have f1: "only_block b w w1" using c1 by (rule construct_only_block)
    show ?thesis
    proof (cases r1)
      case (Inl e)
      with Cons.prems Some c1 f1 show ?thesis by simp
    next
      case (Inr u)
      obtain r2 w2 where c2: "uninitialised_transfer mt w1 cs (Ptr b (i + 1)) = (r2, w2)" by fastforce
      have f2: "only_block b w1 w2" using Cons.IH [OF c2] .
      have f3: "only_block b w w2" using f1 f2 by (rule only_block_trans)
      have "only_block b w (destroy_n w2 (Ptr b i) 1)"
        using f3 destroy_n_only_block by (rule only_block_trans)
      with Cons.prems Some c1 Inr c2 f3 show ?thesis
        by (auto simp del: construct.simps destroy.simps split: sum.splits if_splits)
    qed
  qed
qed

lemma uninitialised_transfer_result:
  "uninitialised_transfer mt w src out = (Inr p, w') \<Longrightarrow> p = ptr_add out (length src)"
proof (induction src arbitrary: w out p w')
  case Nil
  then show ?case by (simp add: ptr_add_0)
next
  case (Cons c cs)
  from Cons.prems show ?case
    by (auto simp: ptr_add_add simp del: construct.simps destroy.simps
        split: option.splits prod.splits sum.splits dest!: Cons.IH)
qed

lemma allocate_Inr:
  "allocate w a n = (Inr p, w1) \<Longrightarrow>
   p = Ptr (fresh w) 0 \<and> only_block (fresh w) w w1 \<and> heap w1 (fresh w) = Some (replicate n None)"
  by (auto simp: allocate_def only_block_def split: if_splits)

lemma allocate_Inl: "allocate w a n = (Inl e, w1) \<Longrightarrow> w1 = w \<and> e = CapacityOverflow"
  by (auto simp: allocate_def split: if_splits)


lemma reversible_uninitialised_move_result:
  "reversible_uninitialised_move T w src out = (Inr p, w') \<Longrightarrow> p = ptr_add out (length src)"
  by (auto simp: reversible_uninitialised_move_def uninitialised_move_def uninitialised_copy_def
      dest: uninitialised_transfer_result split: if_splits)



lemma emplace_realloc_fail_same:
  "emplace_realloc T mt w d naked_at v = (Inl e, d', w') \<Longrightarrow> d' = d"
  by (auto simp: emplace_realloc_def Let_def replace_def split: sum.splits prod.splits if_splits)




subsection \<open>Well-formed worlds\<close>




lemma tick_world: "tick mt w = (t, w') \<Longrightarrow> heap w' = heap w \<and> fresh w' = fresh w"
  by (auto simp: tick_def split: if_splits list.splits)












subsection \<open>emplace without spare capacity\<close>

lemma rep_only_block:
  assumes "rep w d xs cap" and "only_block nb w w'" and "heap w nb = None"
  shows "rep w' d xs cap"
proof (cases "first_ptr d")
  case Null
  with assms(1) show ?thesis by (simp add: rep_def)
next
  case (Ptr b i)
  with assms(1) have "heap w b \<noteq> None" by (auto simp: rep_def)
  with assms(3) have "b \<noteq> nb" by auto
  with assms(2) have "heap w' b = heap w b" by (simp add: only_block_def)
  with assms(1) Ptr show ?thesis by (simp add: rep_def)
qed



text \<open>
  C3. On [1,2] with capacity 2, emplace of 7 at position 1 with an element type whose
  copies may throw allocates a block of three slots, constructs 7 in its slot 1 and
  copies 1 into slot 0; the copy of 2 into slot 2, the third construction, throws. At
  that moment \<open>new_last\<close> is behind the emplaced element, so the handler's
  \<open>destroy_range(new_first, new_last)\<close> destroys 1 and 7, and the following
  \<open>destroy(construct_at)\<close> runs the destructor of 7 a second time, on a slot that
  holds no element, before the new block is deallocated. The container itself is
  unchanged, but the call does not end as the specified clean failure with the new
  block freed.
\<close>

theorem emplace_suffix_failure_destroys_twice:
  "(case emplace throwing_type True (one_block [Some 1, Some 2] [False, False, True])
           (darray_at 0 2 2) (Ptr 0 1) (7 :: int) of
      (r, d', w') \<Rightarrow>
        r = Inl (Fault DoubleDestroy) \<and> bad_destroys w' = 1 \<and>
        heap w' 1 = Some [None, None, None] \<and>
        d' = darray_at 0 2 2 \<and> elements w' d' = [Inr 1, Inr 2])"
  by code_simp

subsection \<open>Appending and the single-pass insert\<close>

lemma construct_Inr:
  "construct mt w (Ptr b i) v = (Inr u, w') \<Longrightarrow>
   \<exists>cs. heap w b = Some cs \<and> i < length cs \<and> heap w' b = Some (cs[i := Some v])"
  by (auto split: option.splits if_splits prod.splits bool.splits dest!: tick_world)


lemma uninitialised_transfer_content:
  "uninitialised_transfer mt w (map Some vs) (Ptr b i) = (Inr p, w') \<Longrightarrow>
   heap w b = Some cs \<Longrightarrow>
   heap w' b = Some (take i cs @ map Some vs @ drop (i + length vs) cs)"
proof (induction vs arbitrary: w i cs)
  case Nil
  then show ?case by simp
next
  case (Cons v vs)
  obtain r1 w1 where c1: "construct mt w (Ptr b i) v = (r1, w1)" by fastforce
  show ?case
  proof (cases r1)
    case (Inl e)
    with Cons.prems c1 show ?thesis by simp
  next
    case (Inr u)
    obtain cs0 where h: "heap w b = Some cs0" "i < length cs0" "heap w1 b = Some (cs0[i := Some v])"
      using construct_Inr [of mt w b i v u w1] c1 Inr by auto
    have cs0: "cs0 = cs" using h(1) Cons.prems(2) by simp
    obtain r2 w2 where c2: "uninitialised_transfer mt w1 (map Some vs) (Ptr b (i + 1)) = (r2, w2)"
      by fastforce
    have r2: "r2 = Inr p" and w2: "w2 = w'"
      using Cons.prems(1) c1 Inr c2
      by (auto simp del: construct.simps destroy.simps split: sum.splits)
    have "heap w' b = Some (take (i + 1) (cs[i := Some v]) @ map Some vs @
                             drop (i + 1 + length vs) (cs[i := Some v]))"
      using Cons.IH [of w1 "i + 1" "cs[i := Some v]"] c2 r2 w2 h(3) cs0 by simp
    moreover have "take (i + 1) (cs[i := Some v]) = take i cs @ [Some v]"
      using h(2) cs0 by (simp add: take_Suc_conv_app_nth)
    ultimately show ?thesis by simp
  qed
qed





lemma rep_block_not_fresh:
  "rep w d xs cap \<Longrightarrow> heap w nb = None \<Longrightarrow> \<forall>i. first_ptr d \<noteq> Ptr nb i"
  by (auto simp: rep_def split: ptr.splits)







subsection \<open>The rotation\<close>













subsection \<open>Appends that succeed\<close>













subsection \<open>The single-pass insert\<close>




subsection \<open>Block lengths and results of the primitives\<close>

lemma same_lengths_refl: "same_lengths w w"
  by (simp add: same_lengths_def)

lemma same_lengths_trans: "same_lengths w w1 \<Longrightarrow> same_lengths w1 w2 \<Longrightarrow> same_lengths w w2"
  by (simp add: same_lengths_def)

lemma construct_same_lengths: "construct mt w p v = (r, w') \<Longrightarrow> same_lengths w w'"
  by (cases p)
     (auto simp: same_lengths_def blen_def split: option.splits if_splits prod.splits bool.splits
       dest!: tick_world)

lemma construct_bound: "construct mt w (Ptr b i) v = (Inr u, w') \<Longrightarrow> i < blen w b"
  by (auto simp: blen_def split: option.splits if_splits)

lemma destroy_same_lengths: "same_lengths w (snd (destroy w p))"
  by (cases p) (auto simp: same_lengths_def blen_def split: option.splits)

lemma uninitialised_transfer_same_lengths:
  "uninitialised_transfer mt w src out = (r, w') \<Longrightarrow> same_lengths w w'"
proof (induction src arbitrary: w out r w')
  case Nil
  then show ?case by (simp add: same_lengths_refl)
next
  case (Cons c cs)
  show ?case
  proof (cases c)
    case None
    with Cons.prems show ?thesis by (simp add: same_lengths_refl)
  next
    case (Some v)
    obtain r1 w1 where c1: "construct mt w out v = (r1, w1)" by fastforce
    have f1: "same_lengths w w1" using c1 by (rule construct_same_lengths)
    show ?thesis
    proof (cases r1)
      case (Inl e)
      with Cons.prems Some c1 f1 show ?thesis by simp
    next
      case (Inr u)
      obtain r2 w2 where c2: "uninitialised_transfer mt w1 cs (ptr_add out 1) = (r2, w2)"
        by fastforce
      have f3: "same_lengths w w2"
        using f1 Cons.IH [OF c2] by (rule same_lengths_trans)
      have "same_lengths w (destroy_n w2 out 1)"
        using f3 destroy_same_lengths [of w2 out] by (simp add: same_lengths_def del: destroy.simps)
      with Cons.prems Some c1 Inr c2 f3 show ?thesis
        by (auto simp del: construct.simps destroy.simps split: sum.splits if_splits)
    qed
  qed
qed

lemma uninitialised_transfer_bound:
  "uninitialised_transfer mt w src (Ptr b i) = (Inr p, w') \<Longrightarrow> src \<noteq> [] \<Longrightarrow>
   i + length src \<le> blen w b"
proof (induction src arbitrary: w i)
  case Nil
  then show ?case by simp
next
  case (Cons c cs)
  from Cons.prems(1) obtain v where v: "c = Some v"
    by (cases c) auto
  obtain r1 w1 where c1: "construct mt w (Ptr b i) v = (r1, w1)" by fastforce
  from Cons.prems(1) v c1 obtain u where u: "r1 = Inr u"
    by (cases r1) (auto simp del: construct.simps)
  have b1: "i < blen w b"
    using construct_bound [of mt w b i v u w1] c1 u by (simp del: construct.simps)
  have l1: "blen w1 b = blen w b"
    using construct_same_lengths [OF c1] by (simp add: same_lengths_def)
  have t: "uninitialised_transfer mt w1 cs (Ptr b (i + 1)) = (Inr p, w')"
    using Cons.prems(1) v c1 u
    by (auto simp del: construct.simps destroy.simps split: sum.splits prod.splits)
  show ?case
  proof (cases "cs = []")
    case True
    with b1 show ?thesis by simp
  next
    case False
    from Cons.IH [OF t False] l1 show ?thesis by simp
  qed
qed

lemma reversible_uninitialised_move_same_lengths:
  "reversible_uninitialised_move T w src out = (r, w') \<Longrightarrow> same_lengths w w'"
  by (auto simp: reversible_uninitialised_move_def uninitialised_move_def uninitialised_copy_def
      dest: uninitialised_transfer_same_lengths split: if_splits)

lemma reversible_uninitialised_move_bound:
  "reversible_uninitialised_move T w src (Ptr b i) = (Inr p, w') \<Longrightarrow> src \<noteq> [] \<Longrightarrow>
   i + length src \<le> blen w b"
  by (auto simp: reversible_uninitialised_move_def uninitialised_move_def uninitialised_copy_def
      dest: uninitialised_transfer_bound split: if_splits)

lemma allocate_blen:
  "allocate w a n = (Inr p, w1) \<Longrightarrow> p = Ptr (fresh w) 0 \<and> blen w1 (fresh w) = n"
  by (auto simp: allocate_def blen_def split: if_splits)

lemma length_slots: "length (slots w p n) = n"
  by (simp add: slots_def)

lemma copy_from_result:
  "copy_from mt w src out = (Inr p, w') \<Longrightarrow> p = ptr_add out (length src)"
proof (induction src arbitrary: w out)
  case Nil
  then show ?case by (simp add: ptr_add_0)
next
  case (Cons c cs)
  from Cons.prems show ?case
    by (auto simp: ptr_add_add simp del: assign_at.simps
        split: option.splits prod.splits sum.splits dest!: Cons.IH)
qed

lemma copy_until_sentinel_result:
  "copy_until_sentinel mt w src out n = (Inr rest, w') \<Longrightarrow> length rest = length src - n"
proof (induction mt w src out n rule: copy_until_sentinel.induct)
  case (1 may_throw w src out)
  then show ?case by simp
next
  case (2 may_throw w out n)
  then show ?case by simp
next
  case (3 may_throw w c cs out n)
  from "3.prems" show ?case
    by (auto simp del: assign_at.simps split: option.splits prod.splits sum.splits
        dest!: "3.IH")
qed

lemma ctg_duplicate_result:
  "ctg_duplicate mt w a src cap = (Inr (nf, nl), w') \<Longrightarrow>
   nf = Ptr (fresh w) 0 \<and> nl = Ptr (fresh w) (length src)"
  by (auto simp: ctg_duplicate_def split: prod.splits sum.splits
      dest!: allocate_Inr uninitialised_transfer_result)

subsection \<open>The layout invariant, operation by operation\<close>

lemma layout_cases:
  assumes "layout d"
  obtains (null) "first_ptr d = Null" "last_ptr d = Null" "end_ptr d = Null"
  | (block) b i n m where "first_ptr d = Ptr b i" "last_ptr d = Ptr b n" "end_ptr d = Ptr b m"
      "i \<le> n" "n \<le> m"
proof (cases "first_ptr d")
  case Null
  with assms null show ?thesis by (simp add: layout_def)
next
  case (Ptr b i)
  from assms Ptr obtain n where n: "last_ptr d = Ptr b n" "i \<le> n"
    by (cases "last_ptr d") (auto simp: layout_def)
  from assms n obtain m where "end_ptr d = Ptr b m" "n \<le> m"
    by (cases "end_ptr d") (auto simp: layout_def)
  with Ptr n block show ?thesis by blast
qed

lemma layout_block:
  "first_ptr d = Ptr b i \<Longrightarrow> last_ptr d = Ptr b n \<Longrightarrow> end_ptr d = Ptr b m \<Longrightarrow>
   i \<le> n \<Longrightarrow> n \<le> m \<Longrightarrow> layout d"
  by (simp add: layout_def)

lemma layout_null:
  "first_ptr d = Null \<Longrightarrow> last_ptr d = Null \<Longrightarrow> end_ptr d = Null \<Longrightarrow> layout d"
  by (simp add: layout_def)

lemma layout_last_update:
  assumes "layout d" and "ptr_le (first_ptr d) p" and "ptr_le p (end_ptr d)"
  shows "layout (d\<lparr>last_ptr := p\<rparr>)"
  using assms(1)
proof (cases rule: layout_cases)
  case null
  with assms(2) have "p = Null" by (cases p) auto
  with null show ?thesis by (simp add: layout_def)
next
  case (block b i n m)
  with assms(2,3) show ?thesis by (cases p) (auto simp: layout_def)
qed

lemma ptr_le_trans: "ptr_le p q \<Longrightarrow> ptr_le q r \<Longrightarrow> ptr_le p r"
  by (cases p; cases q; cases r) auto

lemma layout_last_end: "layout d \<Longrightarrow> ptr_le (last_ptr d) (end_ptr d)"
  by (simp add: layout_def)

lemma layout_first_last: "layout d \<Longrightarrow> ptr_le (first_ptr d) (last_ptr d)"
  by (simp add: layout_def)

lemma erase_layout:
  assumes "layout d" and "ptr_le (first_ptr d) p" and "ptr_le p (last_ptr d)"
    and "erase w d p q = (d', w')"
  shows "layout d'"
proof -
  have "ptr_le p (end_ptr d)"
    using assms(3) layout_last_end [OF assms(1)] by (rule ptr_le_trans)
  with assms(1,2) have "layout (d\<lparr>last_ptr := p\<rparr>)" by (rule layout_last_update)
  with assms(4) show ?thesis by (auto simp: erase_def)
qed

lemma layout_push:
  assumes "layout d" and "last_ptr d \<noteq> end_ptr d"
  shows "layout (d\<lparr>last_ptr := ptr_add (last_ptr d) 1\<rparr>)"
  using assms(1)
proof (cases rule: layout_cases)
  case null
  with assms(2) show ?thesis by simp
next
  case (block b i n m)
  with assms(2) show ?thesis by (auto simp: layout_def)
qed

lemma u_emplace_back_layout:
  assumes "layout d" and "u_emplace_back mt w d v = (r, d', w')"
  shows "layout d'"
  using assms layout_push [of d]
  by (auto simp: u_emplace_back_def simp del: construct.simps
      split: if_splits prod.splits sum.splits)

lemma u_emplace_back_Inr:
  "u_emplace_back mt w d v = (Inr u, d', w') \<Longrightarrow>
   last_ptr d \<noteq> end_ptr d \<and> d' = d\<lparr>last_ptr := ptr_add (last_ptr d) 1\<rparr>"
  by (auto simp: u_emplace_back_def simp del: construct.simps
      split: if_splits prod.splits sum.splits)

lemma emplace_shift_cases:
  assumes "emplace_shift T mt w d naked_at v = (r, d', w')"
  shows "d' = d \<or>
         (last_ptr d \<noteq> end_ptr d \<and>
          (d' = d\<lparr>last_ptr := ptr_add (last_ptr d) 1\<rparr> \<or>
           d' = d\<lparr>last_ptr := naked_at\<rparr> \<or>
           d' = d\<lparr>last_ptr := ptr_sub (ptr_add (last_ptr d) 1) 1\<rparr>))"
proof -
  let ?bl = "ptr_sub (last_ptr d) 1"
  show ?thesis
  proof (cases "load w ?bl")
    case (Inl e)
    with assms show ?thesis by (simp add: emplace_shift_def Let_def)
  next
    case (Inr bl)
    obtain r1 d1 w1 where
      u: "u_emplace_back (\<not> is_nothrow_move_constructible T) w d bl = (r1, d1, w1)"
      by (metis prod_cases3)
    show ?thesis
    proof (cases r1)
      case (Inl e)
      with assms \<open>load w ?bl = Inr bl\<close> u have "d' = d1" by (simp add: emplace_shift_def Let_def)
      moreover have "d1 = d"
        using u Inl by (auto simp: u_emplace_back_def simp del: construct.simps
            split: if_splits prod.splits sum.splits)
      ultimately show ?thesis by simp
    next
      case u1: (Inr x)
      have d1: "last_ptr d \<noteq> end_ptr d" "d1 = d\<lparr>last_ptr := ptr_add (last_ptr d) 1\<rparr>"
        using u_emplace_back_Inr [of _ w d bl x d1 w1] u u1 by simp_all
      have "d' = d1 \<or> d' = d1\<lparr>last_ptr := naked_at\<rparr> \<or>
            d' = d1\<lparr>last_ptr := ptr_sub (last_ptr d1) 1\<rparr>"
        using assms \<open>load w ?bl = Inr bl\<close> u u1
        by (auto simp: emplace_shift_def Let_def
            simp del: construct.simps destroy.simps load.simps
            split: prod.splits sum.splits if_splits)
      with d1 show ?thesis by auto
    qed
  qed
qed

lemma ptr_sub_add: "ptr_sub (ptr_add p n) n = p"
  by (cases p) auto

lemma emplace_shift_layout:
  assumes "layout d" and "ptr_le (first_ptr d) naked_at" and "ptr_le naked_at (last_ptr d)"
    and "emplace_shift T mt w d naked_at v = (r, d', w')"
  shows "layout d'"
proof -
  have e: "ptr_le naked_at (end_ptr d)"
    using assms(3) layout_last_end [OF assms(1)] by (rule ptr_le_trans)
  have "layout (d\<lparr>last_ptr := naked_at\<rparr>)"
    using assms(1,2) e by (rule layout_last_update)
  moreover have "layout (d\<lparr>last_ptr := ptr_sub (ptr_add (last_ptr d) 1) 1\<rparr>)"
    using assms(1) by (simp add: ptr_sub_add)
  ultimately show ?thesis
    using emplace_shift_cases [OF assms(4)] assms(1) layout_push [of d] by auto
qed

lemma replace_layout:
  "replace w d (Ptr nb 0) (Ptr nb k) N = (d', w') \<Longrightarrow> k \<le> N \<Longrightarrow> layout d'"
  by (auto simp: replace_def layout_def)

lemma emplace_migrate_Inr:
  assumes "emplace_migrate T w d naked_at (Ptr nb 0) = (Inr new_last, w')"
    and "ptr_diff naked_at (first_ptr d) < blen w nb"
  shows "\<exists>k. new_last = Ptr nb k \<and> k \<le> blen w nb"
proof (cases "naked_at = last_ptr d")
  case True
  let ?src = "slots w (first_ptr d) (size_of d)"
  from assms(1) True obtain q where
    t: "reversible_uninitialised_move T w ?src (Ptr nb 0) = (Inr q, w')"
    and nl: "new_last = ptr_add q 1"
    by (auto simp: emplace_migrate_def split: prod.splits sum.splits)
  have "q = Ptr nb (size_of d)"
    using reversible_uninitialised_move_result [OF t] by (simp add: length_slots)
  with nl True assms(2) show ?thesis by (simp add: size_of_def)
next
  case False
  let ?a = "ptr_diff naked_at (first_ptr d)"
  let ?src1 = "slots w (first_ptr d) ?a"
  from assms(1) False obtain q w1 where
    t1: "reversible_uninitialised_move T w ?src1 (Ptr nb 0) = (Inr q, w1)"
    by (auto simp: emplace_migrate_def split: prod.splits sum.splits)
  have q: "q = Ptr nb ?a"
    using reversible_uninitialised_move_result [OF t1] by (simp add: length_slots)
  have l1: "blen w1 nb = blen w nb"
    using reversible_uninitialised_move_same_lengths [OF t1] by (simp add: same_lengths_def)
  let ?s = "ptr_diff (last_ptr d) naked_at"
  let ?src2 = "slots w1 naked_at ?s"
  have t2: "reversible_uninitialised_move T w1 ?src2 (Ptr nb (?a + 1)) = (Inr new_last, w')"
    using assms(1) False t1 q
    by (auto simp: emplace_migrate_def split: prod.splits sum.splits)
  have nl: "new_last = Ptr nb (?a + 1 + ?s)"
    using reversible_uninitialised_move_result [OF t2] by (simp add: length_slots)
  show ?thesis
  proof (cases "?s = 0")
    case True
    with nl assms(2) show ?thesis by simp
  next
    case False
    then have "?src2 \<noteq> []" by (simp add: slots_def)
    from reversible_uninitialised_move_bound [OF t2 this] l1 nl
    show ?thesis by (simp add: length_slots)
  qed
qed

lemma emplace_realloc_layout:
  assumes "layout d" and "emplace_realloc T mt w d naked_at v = (r, d', w')"
  shows "layout d'"
proof (cases r)
  case (Inl e)
  with assms show ?thesis by (auto dest: emplace_realloc_fail_same)
next
  case (Inr p)
  obtain nc where g: "calculate_growth d (capacity_w d + 1) = Inr nc"
    using assms(2) Inr by (auto simp: emplace_realloc_def split: sum.splits)
  let ?N = "unat nc" and ?nb = "fresh w"
  let ?a = "ptr_diff naked_at (first_ptr d)"
  obtain w1 where a: "allocate w (alloc d) ?N = (Inr (Ptr ?nb 0), w1)"
    using assms(2) Inr g
    by (auto simp: emplace_realloc_def Let_def split: sum.splits prod.splits dest: allocate_Inr)
  have l1: "blen w1 ?nb = ?N" using allocate_blen [OF a] by simp
  obtain w2 where c: "construct mt w1 (Ptr ?nb ?a) v = (Inr (), w2)"
    using assms(2) Inr g a
    by (auto simp: emplace_realloc_def Let_def simp del: construct.simps
        split: sum.splits prod.splits if_splits)
  have b: "?a < ?N" using construct_bound [OF c] l1 by simp
  have l2: "blen w2 ?nb = ?N"
    using construct_same_lengths [OF c] l1 by (simp add: same_lengths_def)
  obtain new_last w3 where m: "emplace_migrate T w2 d naked_at (Ptr ?nb 0) = (Inr new_last, w3)"
    using assms(2) Inr g a c
    by (auto simp: emplace_realloc_def Let_def simp del: construct.simps
        split: sum.splits prod.splits if_splits)
  obtain k where k: "new_last = Ptr ?nb k" "k \<le> ?N"
    using emplace_migrate_Inr [OF m] b l2 by auto
  have "replace w3 d (Ptr ?nb 0) (Ptr ?nb k) ?N = (d', w')"
    using assms(2) Inr g a c m k
    by (auto simp: emplace_realloc_def Let_def simp del: construct.simps
        split: sum.splits prod.splits if_splits)
  then show ?thesis using k(2) by (rule replace_layout)
qed

lemma emplace_layout:
  assumes "layout d" and "ptr_le (first_ptr d) naked_at" and "ptr_le naked_at (last_ptr d)"
    and "emplace T mt w d naked_at v = (r, d', w')"
  shows "layout d'"
proof (cases "last_ptr d \<noteq> end_ptr d")
  case True
  show ?thesis
  proof (cases "naked_at = last_ptr d")
    case at: True
    with assms(4) \<open>last_ptr d \<noteq> end_ptr d\<close> obtain r1 where
      "u_emplace_back mt w d v = (r1, d', w')"
      by (auto simp: emplace_def split: prod.splits sum.splits)
    with assms(1) show ?thesis by (rule u_emplace_back_layout)
  next
    case False
    with assms(4) True have "emplace_shift T mt w d naked_at v = (r, d', w')"
      by (simp add: emplace_def)
    with assms(1-3) show ?thesis by (rule emplace_shift_layout)
  qed
next
  case False
  with assms(4) have "emplace_realloc T mt w d naked_at v = (r, d', w')"
    by (simp add: emplace_def)
  with assms(1) show ?thesis by (rule emplace_realloc_layout)
qed

lemma ptr_le_refl_layout: "layout d \<Longrightarrow> ptr_le (last_ptr d) (last_ptr d)"
  by (cases "last_ptr d") (auto simp: layout_def)

lemma emplace_back_layout:
  assumes "layout d" and "emplace_back T mt w d v = (r, d', w')"
  shows "layout d'"
  using assms(1) layout_first_last [OF assms(1)] ptr_le_refl_layout [OF assms(1)]
    assms(2) [unfolded emplace_back_def]
  by (rule emplace_layout)

lemma push_back_layout:
  assumes "layout d" and "push_back T moved w d v = (r, d', w')"
  shows "layout d'"
proof -
  obtain r1 where
    "emplace_back T (if moved then \<not> is_nothrow_move_constructible T else True) w d v = (r1, d', w')"
    using assms(2) by (auto simp: push_back_def split: prod.splits sum.splits)
  with assms(1) show ?thesis by (rule emplace_back_layout)
qed

lemma emplace_back_all_layout:
  "layout d \<Longrightarrow> emplace_back_all T w d src = (r, d', w') \<Longrightarrow> layout d'"
proof (induction src arbitrary: w d)
  case Nil
  then show ?case by simp
next
  case (Cons v vs)
  obtain r1 d1 w1 where e: "emplace_back T True w d v = (r1, d1, w1)"
    by (metis prod_cases3)
  have l1: "layout d1" using Cons.prems(1) e by (rule emplace_back_layout)
  show ?case
  proof (cases r1)
    case (Inl e1)
    with Cons.prems(2) e l1 show ?thesis by auto
  next
    case (Inr p)
    with Cons.prems(2) e have "emplace_back_all T w1 d1 vs = (r, d', w')" by simp
    with l1 show ?thesis by (rule Cons.IH)
  qed
qed

lemma resize_assign_layout:
  assumes "resize_assign mt w d a src cap = (r, d', w')" and "layout d" and "length src \<le> cap"
  shows "layout d'"
proof (cases r)
  case (Inl e)
  with assms(1) have "d' = d"
    by (auto simp: resize_assign_def replace_def split: prod.splits sum.splits)
  with assms(2) show ?thesis by simp
next
  case (Inr u)
  with assms(1) obtain nf nl w1 where c: "ctg_duplicate mt w a src cap = (Inr (nf, nl), w1)"
    and rp: "replace w1 d nf nl cap = (d', w')"
    by (auto simp: resize_assign_def split: prod.splits sum.splits)
  from ctg_duplicate_result [OF c] rp assms(3) show ?thesis
    by (auto intro: replace_layout)
qed

lemma unallocated_assign_layout:
  assumes "unallocated_assign mt w d src cap = (Inr u, d', w')" and "length src \<le> cap"
  shows "layout d'"
proof -
  from assms(1) obtain nf nl where c: "ctg_duplicate mt w (alloc d) src cap = (Inr (nf, nl), w')"
    and d': "d' = d\<lparr>first_ptr := nf, last_ptr := nl, end_ptr := ptr_add nf cap\<rparr>"
    by (auto simp: unallocated_assign_def split: prod.splits sum.splits)
  from ctg_duplicate_result [OF c] d' assms(2) show ?thesis
    by (auto simp: layout_def)
qed

lemma layout_size_capacity: "layout d \<Longrightarrow> size_of d \<le> capacity d"
  by (erule layout_cases) (auto simp: size_of_def capacity_def ptr_diff_def)

lemma layout_set_last_index:
  assumes "layout d" and "k \<le> capacity d"
  shows "layout (d\<lparr>last_ptr := ptr_add (first_ptr d) k\<rparr>)"
  using assms(1)
proof (cases rule: layout_cases)
  case null
  then show ?thesis by (simp add: layout_def)
next
  case (block b i n m)
  with assms(2) show ?thesis by (auto simp: layout_def capacity_def ptr_diff_def)
qed

lemma layout_last_is_first_plus_size:
  "layout d \<Longrightarrow> last_ptr d = ptr_add (first_ptr d) (size_of d)"
  by (erule layout_cases) (auto simp: size_of_def ptr_diff_def)

lemma alt_alloc_assign_layout:
  assumes "layout d" and "alt_alloc_assign T moved w d alt_alloc src = (r, d', w')"
  shows "layout d'"
proof -
  let ?rs = "length src"
  consider (grow) "capacity d < ?rs"
    | (extend) "\<not> capacity d < ?rs" "size_of d < ?rs"
    | (shrink) "\<not> capacity d < ?rs" "\<not> size_of d < ?rs"
    by blast
  then show ?thesis
  proof cases
    case grow
    with assms(2) have "resize_assign (ctor_throws T moved) w d alt_alloc src ?rs = (r, d', w')"
      by (simp add: alt_alloc_assign_def Let_def)
    then show ?thesis using assms(1) by (rule resize_assign_layout) simp
  next
    case extend
    show ?thesis
    proof (cases r)
      case (Inl e)
      with assms(2) extend have "d' = d"
        by (auto simp: alt_alloc_assign_def Let_def split: prod.splits sum.splits)
      with assms(1) show ?thesis by simp
    next
      case (Inr u)
      with assms(2) extend obtain rest w1 new_last where
        c: "copy_until_sentinel (assign_throws T moved) w src (first_ptr d) (size_of d) = (Inr rest, w1)"
        and t: "uninitialised_transfer (ctor_throws T moved) w1 rest (last_ptr d) = (Inr new_last, w')"
        and d': "d' = d\<lparr>last_ptr := new_last\<rparr>"
        by (auto simp: alt_alloc_assign_def Let_def split: prod.splits sum.splits)
      have "new_last = ptr_add (last_ptr d) (?rs - size_of d)"
        using uninitialised_transfer_result [OF t] copy_until_sentinel_result [OF c] by simp
      then have "new_last = ptr_add (first_ptr d) ?rs"
        using layout_last_is_first_plus_size [OF assms(1)] extend(2) by (simp add: ptr_add_add)
      with d' layout_set_last_index [OF assms(1), of ?rs] extend(1) show ?thesis by simp
    qed
  next
    case shrink
    show ?thesis
    proof (cases r)
      case (Inl e)
      with assms(2) shrink have "d' = d"
        by (auto simp: alt_alloc_assign_def Let_def split: prod.splits sum.splits)
      with assms(1) show ?thesis by simp
    next
      case (Inr u)
      with assms(2) shrink obtain new_last w1 where
        c: "copy_from (assign_throws T moved) w src (first_ptr d) = (Inr new_last, w1)"
        and d': "d' = d\<lparr>last_ptr := new_last\<rparr>"
        by (auto simp: alt_alloc_assign_def Let_def split: prod.splits sum.splits)
      have "new_last = ptr_add (first_ptr d) ?rs"
        using copy_from_result [OF c] .
      with d' layout_set_last_index [OF assms(1), of ?rs] shrink(1) show ?thesis by simp
    qed
  qed
qed

lemma assign_fwd_layout:
  "layout d \<Longrightarrow> assign_fwd T moved w d src = (r, d', w') \<Longrightarrow> layout d'"
  unfolding assign_fwd_def by (rule alt_alloc_assign_layout)

lemma assign_input_layout:
  assumes "layout d" and "assign_input T w d src = (r, d', w')"
  shows "layout d'"
proof -
  let ?n = "min (size_of d) (length src)"
  obtain r1 w1 where c: "copy_from True w (map Some (take ?n src)) (first_ptr d) = (r1, w1)"
    by fastforce
  show ?thesis
  proof (cases r1)
    case (Inl e)
    with assms c show ?thesis by (auto simp: assign_input_def Let_def)
  next
    case (Inr new_last)
    have nl: "new_last = ptr_add (first_ptr d) ?n"
      using copy_from_result [of True w "map Some (take ?n src)" "first_ptr d" new_last w1] c Inr
      by simp
    have "?n \<le> capacity d"
      using layout_size_capacity [OF assms(1)] by simp
    then have l: "layout (d\<lparr>last_ptr := new_last\<rparr>)"
      using nl layout_set_last_index [OF assms(1)] by simp
    have "emplace_back_all T (destroy_range w1 new_last (last_ptr d)) (d\<lparr>last_ptr := new_last\<rparr>)
            (drop ?n src) = (r, d', w')"
      using assms(2) c Inr by (simp add: assign_input_def Let_def)
    with l show ?thesis by (rule emplace_back_all_layout)
  qed
qed

lemma layout_alloc_update: "layout (d\<lparr>alloc := a\<rparr>) = layout d"
  by (simp add: layout_def)

lemma copy_assign_layout:
  assumes "layout d" and "copy_assign T w d other = (r, d', w')"
  shows "layout d'"
proof -
  have l: "layout (d\<lparr>alloc := alloc other\<rparr>)"
    using assms(1) by (simp add: layout_alloc_update)
  show ?thesis
    using assms assign_fwd_layout [OF l] assign_fwd_layout [OF assms(1)]
      alt_alloc_assign_layout [OF assms(1)]
    by (auto simp: copy_assign_def layout_alloc_update split: if_splits prod.splits sum.splits)
qed

lemma steal_layout:
  "layout other \<Longrightarrow> steal d other = (d', other') \<Longrightarrow> layout d' \<and> layout other'"
  by (auto simp: steal_def layout_def)

lemma move_assign_layout:
  assumes "layout d" and "layout other" and "move_assign T w d other = (r, d', other', w')"
  shows "layout d' \<and> layout other'"
  using assms
  by (auto simp: move_assign_def split: if_splits prod.splits sum.splits
      dest: assign_fwd_layout steal_layout)

lemma move_construct_layout:
  "layout other \<Longrightarrow> move_construct other = (d', other') \<Longrightarrow> layout d' \<and> layout other'"
  by (auto simp: move_construct_def layout_def)

lemma alloc_construct_layout: "layout (alloc_construct a)"
  by (simp add: alloc_construct_def layout_def)

lemma copy_construct_alloc_layout:
  assumes "layout other" and "copy_construct_alloc w other a = (Inr d', w')"
  shows "layout d'"
proof -
  from assms(2) obtain u where
    "unallocated_assign True w (alloc_construct a)
       (slots w (first_ptr other) (ptr_diff (last_ptr other) (first_ptr other)))
       (capacity other) = (Inr u, d', w')"
    by (auto simp: copy_construct_alloc_def split: prod.splits sum.splits)
  then show ?thesis
    by (rule unallocated_assign_layout)
       (use layout_size_capacity [OF assms(1)] in \<open>simp add: length_slots size_of_def\<close>)
qed

lemma move_construct_alloc_layout:
  assumes "layout other" and "move_construct_alloc T w other a = (Inr (d', other'), w')"
  shows "layout d' \<and> layout other'"
proof (cases "\<not> is_always_equal T \<and> a \<noteq> alloc other")
  case True
  with assms(2) obtain u where
    "unallocated_assign (ctor_throws T True) w (alloc_construct a)
       (slots w (first_ptr other) (ptr_diff (last_ptr other) (first_ptr other)))
       (capacity other) = (Inr u, d', w')" and "other' = other"
    by (auto simp: move_construct_alloc_def split: prod.splits sum.splits)
  then show ?thesis
    using layout_size_capacity [OF assms(1)] assms(1)
    by (auto intro!: unallocated_assign_layout simp: length_slots size_of_def)
next
  case False
  with assms show ?thesis
    by (auto simp: move_construct_alloc_def dest: steal_layout)
qed

lemma construct_input_layout:
  "construct_input T w src a = (Inr d', w') \<Longrightarrow> layout d'"
  by (auto simp: construct_input_def split: prod.splits sum.splits
      dest: emplace_back_all_layout [OF alloc_construct_layout])

lemma construct_fwd_layout:
  "construct_fwd w src a = (Inr d', w') \<Longrightarrow> layout d'"
  by (auto simp: construct_fwd_def split: prod.splits sum.splits
      intro: unallocated_assign_layout)

lemma insert_realloc_fail_same:
  "insert_realloc T w d naked_at src = (Inl e, d', w') \<Longrightarrow> d' = d"
  by (auto simp: insert_realloc_def Let_def replace_def split: sum.splits prod.splits if_splits)

lemma uninitialised_copy_result:
  "uninitialised_copy w src out = (Inr p, w') \<Longrightarrow> p = ptr_add out (length src)"
  unfolding uninitialised_copy_def by (rule uninitialised_transfer_result)

lemma insert_realloc_layout:
  assumes "layout d" and "src \<noteq> []" and "insert_realloc T w d naked_at src = (r, d', w')"
  shows "layout d'"
proof (cases r)
  case (Inl e)
  with assms show ?thesis by (auto dest: insert_realloc_fail_same)
next
  case (Inr u)
  obtain nc where g: "calculate_growth d (size_w d + word_of_nat (length src)) = Inr nc"
    using assms(3) Inr by (auto simp: insert_realloc_def split: sum.splits)
  let ?N = "unat nc" and ?nb = "fresh w"
  let ?a = "ptr_diff naked_at (first_ptr d)"
  let ?s = "ptr_diff (last_ptr d) naked_at"
  obtain w1 where a: "allocate w (alloc d) ?N = (Inr (Ptr ?nb 0), w1)"
    using assms(3) Inr g
    by (auto simp: insert_realloc_def Let_def split: sum.splits prod.splits dest: allocate_Inr)
  have l1: "blen w1 ?nb = ?N" using allocate_blen [OF a] by simp
  obtain new_last w2 where c: "uninitialised_copy w1 src (Ptr ?nb ?a) = (Inr new_last, w2)"
    using assms(3) Inr g a
    by (auto simp: insert_realloc_def Let_def split: sum.splits prod.splits if_splits)
  have nl: "new_last = Ptr ?nb (?a + length src)"
    using uninitialised_copy_result [OF c] by simp
  have b: "?a + length src \<le> ?N"
    using uninitialised_transfer_bound [OF c [unfolded uninitialised_copy_def] assms(2)] l1
    by simp
  have l2: "blen w2 ?nb = ?N"
    using uninitialised_transfer_same_lengths [OF c [unfolded uninitialised_copy_def]] l1
    by (simp add: same_lengths_def)
  obtain q w3 where t1: "reversible_uninitialised_move T w2
        (slots w2 (first_ptr d) ?a) (Ptr ?nb 0) = (Inr q, w3)"
    using assms(3) Inr g a c
    by (auto simp: insert_realloc_def Let_def split: sum.splits prod.splits if_splits)
  have l3: "blen w3 ?nb = ?N"
    using reversible_uninitialised_move_same_lengths [OF t1] l2 by (simp add: same_lengths_def)
  obtain new_last2 w4 where t2: "reversible_uninitialised_move T w3
        (slots w3 naked_at ?s) (Ptr ?nb (?a + length src)) = (Inr new_last2, w4)"
    and rp: "replace w4 d (Ptr ?nb 0) new_last2 ?N = (d', w')"
    using assms(3) Inr g a c nl t1
    by (auto simp: insert_realloc_def Let_def split: sum.splits prod.splits if_splits)
  have nl2: "new_last2 = Ptr ?nb (?a + length src + ?s)"
    using reversible_uninitialised_move_result [OF t2] by (simp add: length_slots)
  have "?a + length src + ?s \<le> ?N"
  proof (cases "?s = 0")
    case True
    with b show ?thesis by simp
  next
    case False
    then have "slots w3 naked_at ?s \<noteq> []" by (simp add: slots_def)
    from reversible_uninitialised_move_bound [OF t2 this] l3 show ?thesis
      by (simp add: length_slots)
  qed
  with rp nl2 show ?thesis by (auto intro: replace_layout)
qed

text \<open>In the branches with enough spare capacity the container stays as it is or its
  used-end marker moves to \<open>new_last\<close>, the old one advanced by the length of the range.\<close>

lemma insert_shift_back_cases:
  assumes "insert_shift_back T w d naked_at usb new_last = (r, d', w')"
  shows "d' = d \<or> d' = d\<lparr>last_ptr := new_last\<rparr>"
proof (cases "is_nothrow_move_assignable T")
  case True
  with assms show ?thesis
    by (auto simp: insert_shift_back_def split: prod.splits sum.splits)
next
  case False
  obtain r1 w1 where b: "backward_within True w naked_at (ptr_diff usb naked_at) (last_ptr d) = (r1, w1)"
    by fastforce
  show ?thesis
  proof (cases r1)
    case (Inr p)
    with assms False b show ?thesis by (simp add: insert_shift_back_def)
  next
    case (Inl e)
    obtain r2 w2 where m: "move_within True w1 (last_ptr d) (ptr_diff new_last (last_ptr d)) usb = (r2, w2)"
      by fastforce
    from assms False b Inl m show ?thesis
      by (cases r2) (auto simp: insert_shift_back_def split: if_splits)
  qed
qed

lemma insert_shift_short_cases:
  assumes "insert_shift_short T w d naked_at src = (r, d', w')"
  shows "d' = d \<or> d' = d\<lparr>last_ptr := ptr_add (last_ptr d) (length src)\<rparr>"
proof -
  let ?rs = "length src"
  let ?usb = "ptr_sub (last_ptr d) ?rs"
  obtain r1 w1 where t: "reversible_uninitialised_move T w (slots w ?usb ?rs) (last_ptr d) = (r1, w1)"
    by fastforce
  show ?thesis
  proof (cases r1)
    case (Inl e)
    with assms t show ?thesis by (simp add: insert_shift_short_def Let_def)
  next
    case (Inr new_last)
    have nl: "new_last = ptr_add (last_ptr d) ?rs"
      using reversible_uninitialised_move_result [of T w "slots w ?usb ?rs" "last_ptr d" new_last w1]
        t Inr by (simp add: length_slots)
    obtain r2 d2 w2 where sb: "insert_shift_back T w1 d naked_at ?usb new_last = (r2, d2, w2)"
      by (metis prod_cases3)
    have d2: "d2 = d \<or> d2 = d\<lparr>last_ptr := new_last\<rparr>"
      using sb by (rule insert_shift_back_cases)
    have "d' = d \<or> d' = d\<lparr>last_ptr := new_last\<rparr>"
    proof (cases r2)
      case (Inl e)
      with assms t Inr sb d2 show ?thesis by (auto simp: insert_shift_short_def Let_def)
    next
      case ie: (Inr insert_end)
      obtain r3 w3 where c: "copy_from True w2 src naked_at = (r3, w3)" by fastforce
      show ?thesis
      proof (cases r3)
        case (Inr q)
        with assms t \<open>r1 = Inr new_last\<close> sb ie c show ?thesis
          by (simp add: insert_shift_short_def Let_def)
      next
        case (Inl e)
        obtain r4 w4 where m: "move_within (\<not> is_nothrow_move_assignable T) w3 insert_end
            (ptr_diff new_last insert_end) naked_at = (r4, w4)" by fastforce
        from assms t \<open>r1 = Inr new_last\<close> sb ie c Inl m show ?thesis
          by (cases r4) (auto simp: insert_shift_short_def Let_def split: if_splits)
      qed
    qed
    with nl show ?thesis by simp
  qed
qed

lemma insert_shift_long_cases:
  assumes "insert_shift_long T w d naked_at src = (r, d', w')"
  shows "d' = d \<or>
         d' = d\<lparr>last_ptr := ptr_add (ptr_add naked_at (length src)) (ptr_diff (last_ptr d) naked_at)\<rparr>"
proof -
  let ?rs = "length src"
  let ?sc = "ptr_diff (last_ptr d) naked_at"
  obtain r1 w1 where t: "reversible_uninitialised_move T w (slots w naked_at ?sc)
      (ptr_add naked_at ?rs) = (r1, w1)"
    by fastforce
  show ?thesis
  proof (cases r1)
    case (Inl e)
    with assms t show ?thesis by (simp add: insert_shift_long_def Let_def)
  next
    case (Inr new_last)
    have nl: "new_last = ptr_add (ptr_add naked_at ?rs) ?sc"
      using reversible_uninitialised_move_result
        [of T w "slots w naked_at ?sc" "ptr_add naked_at ?rs" new_last w1]
        t Inr by (simp add: length_slots)
    obtain r2 w2 where c: "(case copy_until_sentinel True w1 src naked_at ?sc of
               (Inl e, w2) \<Rightarrow> (Inl e, w2)
             | (Inr rest, w2) \<Rightarrow> uninitialised_copy w2 rest (last_ptr d)) = (r2, w2)"
      by fastforce
    have "d' = d \<or> d' = d\<lparr>last_ptr := new_last\<rparr>"
    proof (cases r2)
      case (Inr q)
      with assms t \<open>r1 = Inr new_last\<close> c show ?thesis
        by (simp add: insert_shift_long_def Let_def)
    next
      case (Inl e)
      obtain r4 w4 where m: "move_within (\<not> is_nothrow_move_assignable T) w2
          (ptr_add naked_at ?rs) (ptr_diff new_last (ptr_add naked_at ?rs)) naked_at = (r4, w4)"
        by fastforce
      from assms t \<open>r1 = Inr new_last\<close> c Inl m show ?thesis
        by (cases r4) (auto simp: insert_shift_long_def Let_def split: if_splits)
    qed
    with nl show ?thesis by simp
  qed
qed

lemma layout_advance:
  assumes "layout d" and "k \<le> ptr_diff (end_ptr d) (last_ptr d)"
  shows "layout (d\<lparr>last_ptr := ptr_add (last_ptr d) k\<rparr>)"
  using assms(1)
proof (cases rule: layout_cases)
  case null
  then show ?thesis by (simp add: layout_def)
next
  case (block b i n m)
  with assms(2) show ?thesis by (auto simp: layout_def ptr_diff_def)
qed

lemma ptr_add_diff:
  "ptr_le p q \<Longrightarrow> ptr_add (ptr_add p k) (ptr_diff q p) = ptr_add q k"
  by (cases p; cases q) (auto simp: ptr_diff_def)

lemma insert_fwd_layout:
  assumes "layout d" and "insert_fwd T w d naked_at src = (r, d', w')"
  shows "layout d'"
proof (cases "ptr_le (first_ptr d) naked_at \<and> ptr_le naked_at (last_ptr d)")
  case False
  with assms show ?thesis by (auto simp: insert_fwd_def)
next
  case True
  let ?rs = "length src"
  let ?unused = "ptr_diff (end_ptr d) (last_ptr d)"
  consider (none) "?rs = 0"
    | (realloc) "?rs \<noteq> 0" "?unused < ?rs"
    | (short) "?rs \<noteq> 0" "\<not> ?unused < ?rs" "?rs < ptr_diff (last_ptr d) naked_at"
    | (long) "?rs \<noteq> 0" "\<not> ?unused < ?rs" "\<not> ?rs < ptr_diff (last_ptr d) naked_at"
    by blast
  then show ?thesis
  proof cases
    case none
    with assms True show ?thesis by (auto simp: insert_fwd_def)
  next
    case realloc
    with assms(2) True have ir: "insert_realloc T w d naked_at src = (r, d', w')"
      by (simp add: insert_fwd_def Let_def)
    have "src \<noteq> []" using realloc(1) by auto
    with assms(1) show ?thesis using ir by (rule insert_realloc_layout)
  next
    case short
    with assms(2) True have "insert_shift_short T w d naked_at src = (r, d', w')"
      by (simp add: insert_fwd_def Let_def)
    from insert_shift_short_cases [OF this] assms(1) short(2) layout_advance [of d ?rs]
    show ?thesis by auto
  next
    case long
    with assms(2) True have "insert_shift_long T w d naked_at src = (r, d', w')"
      by (simp add: insert_fwd_def Let_def)
    from insert_shift_long_cases [OF this] assms(1) long(2) layout_advance [of d ?rs] True
    show ?thesis by (auto simp: ptr_add_diff)
  qed
qed

lemma insert_input_layout:
  assumes "layout d" and "insert_input T w d naked_at src = (r, d', w')"
  shows "layout d'"
proof -
  obtain r1 w1 where "emplace_back_all T w d src = (r1, d', w1)"
    using assms(2)
    by (auto simp: insert_input_def Let_def split: prod.splits sum.splits if_splits)
  with assms(1) show ?thesis by (rule emplace_back_all_layout)
qed

lemma uninitialised_move_result:
  "uninitialised_move w src out = (Inr p, w') \<Longrightarrow> p = ptr_add out (length src)"
  unfolding uninitialised_move_def by (rule uninitialised_transfer_result)

lemma unchecked_grow_exactly_layout:
  assumes "layout d" and "capacity d < n" and "unchecked_grow_exactly T w d n = (r, d', w')"
  shows "layout d'"
proof (cases "is_nothrow_move_constructible T")
  case False
  with assms(3) have "resize_assign True w d (alloc d)
      (slots w (first_ptr d) (ptr_diff (end_ptr d) (first_ptr d))) n = (r, d', w')"
    by (simp add: unchecked_grow_exactly_def)
  then show ?thesis using assms(1)
    by (rule resize_assign_layout) (use assms(2) in \<open>simp add: length_slots capacity_def\<close>)
next
  case True
  show ?thesis
  proof (cases r)
    case (Inl e)
    with assms(3) True have "d' = d"
      by (auto simp: unchecked_grow_exactly_def replace_def split: prod.splits sum.splits)
    with assms(1) show ?thesis by simp
  next
    case (Inr u)
    with assms(3) True obtain nf w1 nl w2 where a: "allocate w (alloc d) n = (Inr nf, w1)"
      and t: "uninitialised_move w1 (slots w1 (first_ptr d) (ptr_diff (last_ptr d) (first_ptr d))) nf
                = (Inr nl, w2)"
      and rp: "replace w2 d nf nl n = (d', w')"
      by (auto simp: unchecked_grow_exactly_def split: prod.splits sum.splits)
    have nf: "nf = Ptr (fresh w) 0" using allocate_Inr [OF a] by simp
    have nl: "nl = Ptr (fresh w) (size_of d)"
      using uninitialised_move_result [OF t] nf by (simp add: length_slots size_of_def)
    have "size_of d \<le> n"
      using layout_size_capacity [OF assms(1)] assms(2) by simp
    with rp nf nl show ?thesis by (auto intro: replace_layout)
  qed
qed

lemma reserve_layout:
  assumes "layout d" and "reserve T w d n = (r, d', w')"
  shows "layout d'"
  using assms unchecked_grow_exactly_layout [OF assms(1), of n T w r d' w']
  by (auto simp: reserve_def split: if_splits)

lemma shrink_to_fit_layout:
  assumes "layout d" and "shrink_to_fit T w d = (r, d', w')"
  shows "layout d'"
proof (cases r)
  case (Inl e)
  with assms(2) have "d' = d"
    by (auto simp: shrink_to_fit_def replace_def split: prod.splits sum.splits if_splits)
  with assms(1) show ?thesis by simp
next
  case (Inr u)
  show ?thesis
  proof (cases "last_ptr d \<noteq> end_ptr d")
    case False
    with assms Inr show ?thesis by (auto simp: shrink_to_fit_def)
  next
    case True
    with assms(2) Inr obtain nf w1 nl w2 where a: "allocate w (alloc d) (size_of d) = (Inr nf, w1)"
      and t: "reversible_uninitialised_move T w1 (slots w1 (first_ptr d) (size_of d)) nf = (Inr nl, w2)"
      and rp: "replace w2 d nf nl (size_of d) = (d', w')"
      by (auto simp: shrink_to_fit_def split: prod.splits sum.splits if_splits)
    have nf: "nf = Ptr (fresh w) 0" using allocate_Inr [OF a] by simp
    have nl: "nl = Ptr (fresh w) (size_of d)"
      using reversible_uninitialised_move_result [OF t] nf by (simp add: length_slots)
    with rp nf show ?thesis by (auto intro: replace_layout)
  qed
qed


subsection \<open>The layout invariant of every public operation\<close>

lemma perform_layout:
  assumes "layout d" and "valid_args d op" and "perform T w d op = (r, d', w')"
  shows "layout d'"
proof (cases op)
  case (Assign moved src)
  with assms(3) have "assign_fwd T moved w d src = (r, d', w')" by simp
  with assms(1) show ?thesis by (rule assign_fwd_layout)
next
  case (Assign_single_pass src)
  with assms(3) have "assign_input T w d src = (r, d', w')" by simp
  with assms(1) show ?thesis by (rule assign_input_layout)
next
  case (Alt_alloc_assign a moved src)
  with assms(3) have "alt_alloc_assign T moved w d a src = (r, d', w')" by simp
  with assms(1) show ?thesis by (rule alt_alloc_assign_layout)
next
  case (Copy_assign other)
  with assms(3) have "copy_assign T w d other = (r, d', w')" by simp
  with assms(1) show ?thesis by (rule copy_assign_layout)
next
  case (Erase p q)
  with assms(2) have v: "ptr_le (first_ptr d) p" "ptr_le p (last_ptr d)"
    by (auto intro: ptr_le_trans)
  from assms(3) Erase obtain w1 where "erase w d p q = (d', w1)"
    by (auto split: prod.splits)
  with assms(1) v show ?thesis by (rule erase_layout)
next
  case (U_emplace_back may_throw v)
  with assms(3) have "u_emplace_back may_throw w d v = (r, d', w')" by simp
  with assms(1) show ?thesis by (rule u_emplace_back_layout)
next
  case (Upush_back moved v)
  with assms(3) have "u_emplace_back (if moved then \<not> is_nothrow_move_constructible T else True)
      w d v = (r, d', w')" by (simp add: upush_back_def)
  with assms(1) show ?thesis by (rule u_emplace_back_layout)
next
  case (Emplace may_throw naked_at v)
  obtain r1 d1 w1 where e: "emplace T may_throw w d naked_at v = (r1, d1, w1)"
    by (metis prod_cases3)
  from assms(2) Emplace have v: "ptr_le (first_ptr d) naked_at" "ptr_le naked_at (last_ptr d)"
    by simp_all
  have "layout d1"
    using assms(1) v e by (rule emplace_layout)
  moreover have "d' = d1"
    using assms(3) Emplace e by (cases r1) (simp_all add: discard_def)
  ultimately show ?thesis by simp
next
  case (Emplace_back may_throw v)
  obtain r1 d1 w1 where e: "emplace_back T may_throw w d v = (r1, d1, w1)"
    by (metis prod_cases3)
  have "layout d1"
    using assms(1) e by (rule emplace_back_layout)
  moreover have "d' = d1"
    using assms(3) Emplace_back e by (cases r1) (simp_all add: discard_def)
  ultimately show ?thesis by simp
next
  case (Push_back moved v)
  with assms(3) have "push_back T moved w d v = (r, d', w')" by simp
  with assms(1) show ?thesis by (rule push_back_layout)
next
  case (Insert_single_pass naked_at src)
  with assms(3) have "insert_input T w d naked_at src = (r, d', w')" by simp
  with assms(1) show ?thesis by (rule insert_input_layout)
next
  case (Insert naked_at src)
  with assms(3) have "insert_fwd T w d naked_at src = (r, d', w')" by simp
  with assms(1) show ?thesis by (rule insert_fwd_layout)
next
  case (Reserve n)
  with assms(3) have "reserve T w d n = (r, d', w')" by simp
  with assms(1) show ?thesis by (rule reserve_layout)
next
  case Shrink_to_fit
  with assms(3) have "shrink_to_fit T w d = (r, d', w')" by simp
  with assms(1) show ?thesis by (rule shrink_to_fit_layout)
qed

text \<open>
  C4. Every public operation keeps the layout invariant first <= last <= end, with last
  and end null whenever first is null: from a container with the invariant, each mutating
  member function, erase and emplace being called with positions of the container, leaves
  a container with the invariant, whatever its outcome (success, exception or fault); move
  assignment leaves
  both containers with it; every constructor that returns builds a container with it.
\<close>

theorem layout_invariant_preserved:
  assumes "layout d"
  shows "(valid_args d op \<longrightarrow> layout (fst (snd (perform T w d op)))) \<and>
         (layout other \<longrightarrow>
            (case move_assign T w d other of (r, d', other', w') \<Rightarrow> layout d' \<and> layout other')) \<and>
         (case move_construct d of (new, d') \<Rightarrow> layout new \<and> layout d') \<and>
         (case copy_construct_alloc w d a of (Inr new, w') \<Rightarrow> layout new | (Inl e, w') \<Rightarrow> True) \<and>
         (case move_construct_alloc T w d a of
            (Inr (new, d'), w') \<Rightarrow> layout new \<and> layout d' | (Inl e, w') \<Rightarrow> True) \<and>
         (case construct_input T w vs a of (Inr new, w') \<Rightarrow> layout new | (Inl e, w') \<Rightarrow> True) \<and>
         (case construct_fwd w src a of (Inr new, w') \<Rightarrow> layout new | (Inl e, w') \<Rightarrow> True) \<and>
         layout (alloc_construct a)"
proof -
  have 1: "valid_args d op \<longrightarrow> layout (fst (snd (perform T w d op)))"
  proof
    assume v: "valid_args d op"
    obtain r d' w' where p: "perform T w d op = (r, d', w')" by (metis prod_cases3)
    from perform_layout [OF assms v p] p show "layout (fst (snd (perform T w d op)))" by simp
  qed
  have 2: "layout other \<longrightarrow>
      (case move_assign T w d other of (r, d', other', w') \<Rightarrow> layout d' \<and> layout other')"
  proof
    assume o: "layout other"
    obtain r d' other' w' where p: "move_assign T w d other = (r, d', other', w')"
      by (metis prod_cases4)
    from move_assign_layout [OF assms o p] p
    show "case move_assign T w d other of (r, d', other', w') \<Rightarrow> layout d' \<and> layout other'"
      by simp
  qed
  have 3: "case move_construct d of (new, d') \<Rightarrow> layout new \<and> layout d'"
  proof -
    obtain new d' where p: "move_construct d = (new, d')" by fastforce
    from move_construct_layout [OF assms p] p show ?thesis by simp
  qed
  have 4: "case copy_construct_alloc w d a of (Inr new, w') \<Rightarrow> layout new | (Inl e, w') \<Rightarrow> True"
  proof -
    obtain r w' where p: "copy_construct_alloc w d a = (r, w')" by fastforce
    show ?thesis
    proof (cases r)
      case (Inl e)
      with p show ?thesis by simp
    next
      case (Inr new)
      with copy_construct_alloc_layout [OF assms, of w a new w'] p show ?thesis by simp
    qed
  qed
  have 5: "case move_construct_alloc T w d a of
            (Inr (new, d'), w') \<Rightarrow> layout new \<and> layout d' | (Inl e, w') \<Rightarrow> True"
  proof -
    obtain r w' where p: "move_construct_alloc T w d a = (r, w')" by fastforce
    show ?thesis
    proof (cases r)
      case (Inl e)
      with p show ?thesis by simp
    next
      case (Inr nd)
      obtain new d' where nd: "nd = (new, d')" by (cases nd)
      with move_construct_alloc_layout [OF assms, of T w a new d' w'] p Inr show ?thesis by simp
    qed
  qed
  have 6: "case construct_input T w vs a of (Inr new, w') \<Rightarrow> layout new | (Inl e, w') \<Rightarrow> True"
  proof -
    obtain r w' where p: "construct_input T w vs a = (r, w')" by fastforce
    show ?thesis
    proof (cases r)
      case (Inl e)
      with p show ?thesis by simp
    next
      case (Inr new)
      with construct_input_layout [of T w vs a new w'] p show ?thesis by simp
    qed
  qed
  have 7: "case construct_fwd w src a of (Inr new, w') \<Rightarrow> layout new | (Inl e, w') \<Rightarrow> True"
  proof -
    obtain r w' where p: "construct_fwd w src a = (r, w')" by fastforce
    show ?thesis
    proof (cases r)
      case (Inl e)
      with p show ?thesis by simp
    next
      case (Inr new)
      with construct_fwd_layout [of w src a new w'] p show ?thesis by simp
    qed
  qed
  from 1 2 3 4 5 6 7 alloc_construct_layout [of a] show ?thesis by (intro conjI)
qed

theorem layout_invariant_preserved_witness:
  "layout (darray_at 0 2 2) \<and> valid_args (darray_at 0 2 2) (Emplace True (Ptr 0 1) (7 :: int)) \<and>
   layout (fst (snd (perform throwing_type (one_block [Some 1, Some 2] [False, False, True])
                       (darray_at 0 2 2) (Emplace True (Ptr 0 1) (7 :: int))))) \<and>
   layout (alloc_construct std_alloc) \<and>
   (case move_assign throwing_type (one_block [Some 1, Some (2 :: int)] [False, False, True])
           (darray_at 0 2 2) (alloc_construct std_alloc) of
      (r, d', other', w') \<Rightarrow> layout d' \<and> layout other')"
proof -
  have l: "layout (darray_at 0 2 2)"
    by (simp add: layout_def darray_at_def)
  have v: "valid_args (darray_at 0 2 2) (Emplace True (Ptr 0 1) (7 :: int))"
    by (simp add: darray_at_def)
  have o: "layout (alloc_construct std_alloc)"
    by (simp add: layout_def alloc_construct_def)
  note t = layout_invariant_preserved
    [OF l, of "Emplace True (Ptr 0 1) (7 :: int)" throwing_type
       "one_block [Some 1, Some 2] [False, False, True]" "alloc_construct std_alloc"]
  have p1: "layout (fst (snd (perform throwing_type (one_block [Some 1, Some 2] [False, False, True])
                       (darray_at 0 2 2) (Emplace True (Ptr 0 1) (7 :: int)))))"
    using conjunct1 [OF t] v by (rule mp)
  have p2: "case move_assign throwing_type (one_block [Some 1, Some (2 :: int)] [False, False, True])
           (darray_at 0 2 2) (alloc_construct std_alloc) of
      (r, d', other', w') \<Rightarrow> layout d' \<and> layout other'"
    using conjunct1 [OF conjunct2 [OF t]] o by (rule mp)
  from l v p1 o p2 show ?thesis by (intro conjI)
qed

subsection \<open>Where erase, copying and reserve do what is specified\<close>

text \<open>erase up to the end of the elements truncates the container; copy construction
  builds an equal container in a block of its own and leaves the source as it is; reserve
  within the capacity does nothing, and for a nothrow move constructible element type
  reserve beyond the capacity moves the elements to a block of exactly the capacity asked
  for.\<close>

lemma destroy_live:
  "heap w b = Some cs \<Longrightarrow> i < length cs \<Longrightarrow> cs ! i \<noteq> None \<Longrightarrow>
   heap (snd (destroy w (Ptr b i))) b = Some (cs[i := None])"
  by simp

lemma destroy_n_content:
  "heap w b = Some cs \<Longrightarrow> i + n \<le> length cs \<Longrightarrow> \<forall>k<n. cs ! (i + k) \<noteq> None \<Longrightarrow>
   heap (destroy_n w (Ptr b i) n) b = Some (take i cs @ replicate n None @ drop (i + n) cs)"
proof (induction n arbitrary: w i cs)
  case 0
  then show ?case by simp
next
  case (Suc n)
  let ?cs = "cs[i := None]"
  have "cs ! i \<noteq> None" using Suc.prems(3) by (metis add.right_neutral zero_less_Suc)
  then have h: "heap (snd (destroy w (Ptr b i))) b = Some ?cs"
    using Suc.prems(1,2) by simp
  have live: "\<forall>k<n. ?cs ! (Suc i + k) \<noteq> None"
    using Suc.prems(3) by auto
  have "heap (destroy_n (snd (destroy w (Ptr b i))) (Ptr b (Suc i)) n) b
        = Some (take (Suc i) ?cs @ replicate n None @ drop (Suc i + n) ?cs)"
    using Suc.IH [OF h _ live] Suc.prems(2) by simp
  moreover have "take (Suc i) ?cs = take i cs @ [None]"
    using Suc.prems(2) by (simp add: take_Suc_conv_app_nth)
  ultimately show ?case
    by (simp add: replicate_append_same del: destroy.simps)
qed

lemma erase_tail_rep:
  assumes "rep w d xs cap" and "i \<le> length xs"
    and "erase w d (ptr_add (first_ptr d) i) (last_ptr d) = (d', w')"
  shows "rep w' d' (take i xs) cap"
proof (cases "first_ptr d")
  case Null
  with assms show ?thesis by (auto simp: rep_def erase_def destroy_range_def ptr_diff_def)
next
  case (Ptr b j)
  let ?n = "length xs"
  let ?cs = "map Some xs @ replicate (cap - ?n) None"
  have d: "j = 0" "last_ptr d = Ptr b ?n" "end_ptr d = Ptr b cap" "?n \<le> cap"
    and h: "heap w b = Some ?cs"
    using assms(1) Ptr by (simp_all add: rep_def)
  have live: "\<forall>k<?n - i. ?cs ! (i + k) \<noteq> None"
    by (auto simp: nth_append)
  have "heap (destroy_n w (Ptr b i) (?n - i)) b
        = Some (take i ?cs @ replicate (?n - i) None @ drop (i + (?n - i)) ?cs)"
    using destroy_n_content [OF h _ live] assms(2) d(4) by simp
  also have "\<dots> = Some (map Some (take i xs) @ replicate (cap - i) None)"
    using assms(2) d(4) by (simp add: take_map replicate_add [symmetric])
  finally have "heap w' b = Some (map Some (take i xs) @ replicate (cap - length (take i xs)) None)"
    using assms(2,3) Ptr d by (auto simp: erase_def destroy_range_def ptr_diff_def min_def)
  moreover have "d' = d\<lparr>last_ptr := Ptr b i\<rparr>"
    using assms(3) Ptr d by (auto simp: erase_def)
  ultimately show ?thesis
    using Ptr d assms(2) by (simp add: rep_def min_def)
qed

lemma reserve_noop: "n \<le> capacity d \<Longrightarrow> reserve T w d n = (Inr (), d, w)"
  by (simp add: reserve_def)

lemma transfer_into_fresh:
  assumes "uninitialised_transfer mt w1 (map Some xs) (Ptr nb 0) = (Inr q, w2)"
    and "heap w1 nb = Some (replicate n None)"
  shows "heap w2 nb = Some (map Some xs @ replicate (n - length xs) None)"
  using uninitialised_transfer_content [OF assms] by simp

lemma rep_slots_all:
  "rep w d xs cap \<Longrightarrow> slots w (first_ptr d) (ptr_diff (last_ptr d) (first_ptr d)) = map Some xs"
  using rep_slots [of w d xs cap 0 "length xs"] rep_size [of w d xs cap]
  by (simp add: ptr_add_0 size_of_def)

lemma copy_construct_rep:
  assumes "rep w other xs cap" and "heap w (fresh w) = None"
    and "copy_construct w other = (Inr d', w')"
  shows "rep w' d' xs cap \<and> rep w' other xs cap \<and> first_ptr d' = Ptr (fresh w) 0"
proof -
  let ?nb = "fresh w"
  let ?src = "slots w (first_ptr other) (ptr_diff (last_ptr other) (first_ptr other))"
  have cap: "capacity other = cap" using assms(1) by (rule rep_capacity)
  have src: "?src = map Some xs" using assms(1) by (rule rep_slots_all)
  from assms(3) obtain nf nl where
    c: "ctg_duplicate True w (alloc other) (map Some xs) cap = (Inr (nf, nl), w')"
    and d': "d' = \<lparr>first_ptr = nf, last_ptr = nl, end_ptr = ptr_add nf cap,
                    alloc = alloc other\<rparr>"
    by (auto simp: copy_construct_def copy_construct_alloc_def unallocated_assign_def cap src
        alloc_construct_def split: prod.splits sum.splits)
  from c obtain w1 where a: "allocate w (alloc other) cap = (Inr nf, w1)"
    and t: "uninitialised_transfer True w1 (map Some xs) nf = (Inr nl, w')"
    by (auto simp: ctg_duplicate_def split: prod.splits sum.splits)
  have nf: "nf = Ptr ?nb 0" and f1: "only_block ?nb w w1"
    and h1: "heap w1 ?nb = Some (replicate cap None)"
    using allocate_Inr [OF a] by simp_all
  have nl: "nl = Ptr ?nb (length xs)"
    using uninitialised_transfer_result [OF t] nf by simp
  have h2: "heap w' ?nb = Some (map Some xs @ replicate (cap - length xs) None)"
    using transfer_into_fresh [OF t [unfolded nf] h1] .
  have f2: "only_block ?nb w w'"
    using f1 uninitialised_transfer_only_block [OF t [unfolded nf]] by (rule only_block_trans)
  have "rep w' other xs cap" using assms(1) f2 assms(2) by (rule rep_only_block)
  moreover have "length xs \<le> cap"
    using assms(1) by (auto simp: rep_def split: ptr.splits)
  then have "rep w' d' xs cap"
    using d' nf nl h2 by (simp add: rep_def)
  ultimately show ?thesis using d' nf by simp
qed

lemma reserve_nothrow_rep:
  assumes "rep w d xs cap" and "heap w (fresh w) = None"
    and "is_nothrow_move_constructible T"
    and "reserve T w d n = (r, d', w')"
  shows "(case r of
            Inr u \<Rightarrow> rep w' d' xs (max cap n)
          | Inl e \<Rightarrow> d' = d \<and> rep w' d' xs cap)"
proof (cases "capacity d < n")
  case False
  with assms(1,4) rep_capacity [OF assms(1)] show ?thesis
    by (auto simp: reserve_def max_def)
next
  case True
  then have lt: "cap < n" using rep_capacity [OF assms(1)] by simp
  let ?nb = "fresh w"
  let ?src = "slots w (first_ptr d) (ptr_diff (last_ptr d) (first_ptr d))"
  obtain r1 w1 where a: "allocate w (alloc d) n = (r1, w1)" by fastforce
  show ?thesis
  proof (cases r1)
    case (Inl e)
    with assms(1,3,4) True a allocate_Inl [of w "alloc d" n e w1] show ?thesis
      by (auto simp: reserve_def unchecked_grow_exactly_def)
  next
    case (Inr nf)
    have nf: "nf = Ptr ?nb 0" and f1: "only_block ?nb w w1"
      and h1: "heap w1 ?nb = Some (replicate n None)"
      using allocate_Inr [of w "alloc d" n nf w1] a Inr by simp_all
    have r1: "rep w1 d xs cap" using assms(1) f1 assms(2) by (rule rep_only_block)
    have src: "slots w1 (first_ptr d) (ptr_diff (last_ptr d) (first_ptr d)) = map Some xs"
      using r1 by (rule rep_slots_all)
    obtain r2 w2 where t: "uninitialised_transfer False w1 (map Some xs) (Ptr ?nb 0) = (r2, w2)"
      by fastforce
    have f2: "only_block ?nb w w2"
      using f1 uninitialised_transfer_only_block [OF t] by (rule only_block_trans)
    have r2: "rep w2 d xs cap" using assms(1) f2 assms(2) by (rule rep_only_block)
    show ?thesis
    proof (cases r2)
      case (Inl e)
      with assms(3,4) True a \<open>r1 = Inr nf\<close> nf src t r2 show ?thesis
        by (auto simp: reserve_def unchecked_grow_exactly_def uninitialised_move_def)
    next
      case (Inr nl)
      have nl: "nl = Ptr ?nb (length xs)"
        using uninitialised_transfer_result [of False w1 "map Some xs" "Ptr ?nb 0" nl w2] t Inr
        by simp
      have h2: "heap w2 ?nb = Some (map Some xs @ replicate (n - length xs) None)"
        using transfer_into_fresh [of False w1 xs ?nb nl w2 n] t Inr h1 by simp
      have res: "r = Inr ()"
        "d' = d\<lparr>first_ptr := Ptr ?nb 0, last_ptr := Ptr ?nb (length xs), end_ptr := Ptr ?nb n\<rparr>"
        "w' = clear_dealloc w2 d"
        using assms(3,4) True a \<open>r1 = Inr nf\<close> nf src t Inr nl
        by (auto simp: reserve_def unchecked_grow_exactly_def uninitialised_move_def replace_def)
      have "heap w' ?nb = heap w2 ?nb"
        using rep_block_not_fresh [OF assms(1,2)] res(3) by (simp add: clear_dealloc_frame)
      moreover have "length xs \<le> n"
        using assms(1) lt by (auto simp: rep_def split: ptr.splits)
      ultimately have "rep w' d' xs n"
        using h2 res(2) by (simp add: rep_def)
      with res(1) lt show ?thesis by (simp add: max_def)
    qed
  qed
qed

end
